theory Spec2Isabelle
  imports Main "HOL-Library.Sublist"
begin

section \<open>Go strings and the standard-library calls of the range parser\<close>

text \<open>
  A Go string is a sequence of bytes; \<^typ>\<open>string\<close> (a list of 8-bit characters) is the
  same thing. The functions of this section model the calls that
  \<^verbatim>\<open>router/router_download.go\<close> makes into \<^verbatim>\<open>strings\<close> and \<^verbatim>\<open>strconv\<close>.
\<close>

definition HasPrefix :: "string \<Rightarrow> string \<Rightarrow> bool" where
  "HasPrefix s p = prefix p s"

definition HasSuffix :: "string \<Rightarrow> string \<Rightarrow> bool" where
  "HasSuffix s p = suffix p s"

definition TrimPrefix :: "string \<Rightarrow> string \<Rightarrow> string" where
  "TrimPrefix s p = (if prefix p s then drop (length p) s else s)"

definition Contains :: "string \<Rightarrow> string \<Rightarrow> bool" where
  "Contains s sub = sublist sub s"

text \<open>
  \<^verbatim>\<open>strings.Split(s, sep)\<close> for a separator of one byte (the source only splits at
  \<^verbatim>\<open>","\<close> and \<^verbatim>\<open>"-"\<close>): the pieces between the occurrences of the separator, one more
  piece than there are occurrences, so never an empty slice.
\<close>

fun Split :: "string \<Rightarrow> char \<Rightarrow> string list" where
  "Split [] sep = [[]]"
| "Split (c # cs) sep =
     (if c = sep then [] # Split cs sep
      else (c # hd (Split cs sep)) # tl (Split cs sep))"

text \<open>
  \<^verbatim>\<open>strings.TrimSpace\<close> removes leading and trailing white space as Unicode defines it.
  On the bytes of a string these are the UTF-8 encodings of the code points for which
  \<^verbatim>\<open>unicode.IsSpace\<close> holds: the six ASCII ones, U+0085, U+00A0, U+1680, U+2000 to
  U+200A, U+2028, U+2029, U+202F, U+205F and U+3000.
\<close>

definition space_runes :: "string list" where
  "space_runes =
    [[CHR 0x09], [CHR 0x0A], [CHR 0x0B], [CHR 0x0C], [CHR 0x0D], [CHR 0x20],
     [CHR 0xC2, CHR 0x85], [CHR 0xC2, CHR 0xA0],
     [CHR 0xE1, CHR 0x9A, CHR 0x80],
     [CHR 0xE2, CHR 0x80, CHR 0x80], [CHR 0xE2, CHR 0x80, CHR 0x81],
     [CHR 0xE2, CHR 0x80, CHR 0x82], [CHR 0xE2, CHR 0x80, CHR 0x83],
     [CHR 0xE2, CHR 0x80, CHR 0x84], [CHR 0xE2, CHR 0x80, CHR 0x85],
     [CHR 0xE2, CHR 0x80, CHR 0x86], [CHR 0xE2, CHR 0x80, CHR 0x87],
     [CHR 0xE2, CHR 0x80, CHR 0x88], [CHR 0xE2, CHR 0x80, CHR 0x89],
     [CHR 0xE2, CHR 0x80, CHR 0x8A],
     [CHR 0xE2, CHR 0x80, CHR 0xA8], [CHR 0xE2, CHR 0x80, CHR 0xA9],
     [CHR 0xE2, CHR 0x80, CHR 0xAF],
     [CHR 0xE2, CHR 0x81, CHR 0x9F],
     [CHR 0xE3, CHR 0x80, CHR 0x80]]"

text \<open>
  Trimming at the front: while the string starts with one of the encodings \<open>rs\<close>, that
  encoding is cut off (\<open>c\<close> is its first byte, the other \<open>length r - 1\<close> are dropped
  from \<open>cs\<close>). Trimming at the back is the same on the reversed string.
\<close>

fun trim_runes :: "string list \<Rightarrow> string \<Rightarrow> string" where
  "trim_runes rs [] = []"
| "trim_runes rs (c # cs) =
     (case find (\<lambda>r. prefix r (c # cs)) rs of
        None \<Rightarrow> c # cs
      | Some r \<Rightarrow> trim_runes rs (drop (length r - 1) cs))"

definition TrimLeftSpace :: "string \<Rightarrow> string" where
  "TrimLeftSpace s = trim_runes space_runes s"

definition TrimRightSpace :: "string \<Rightarrow> string" where
  "TrimRightSpace s = rev (trim_runes (map rev space_runes) (rev s))"

definition TrimSpace :: "string \<Rightarrow> string" where
  "TrimSpace s = TrimRightSpace (TrimLeftSpace s)"

subsection \<open>Decimal numbers: \<^verbatim>\<open>strconv.ParseInt\<close> and \<^verbatim>\<open>strconv.FormatInt\<close>\<close>

datatype NumError = ErrSyntax | ErrRange

definition is_digit :: "char \<Rightarrow> bool" where
  "is_digit c = (48 \<le> (of_char c :: nat) \<and> (of_char c :: nat) \<le> 57)"

definition digit_val :: "char \<Rightarrow> nat" where
  "digit_val c = of_char c - 48"

definition maxUint64 :: nat where
  "maxUint64 = 2 ^ 64 - 1"

text \<open>
  The loop of \<^verbatim>\<open>strconv.ParseUint(s, 10, 64)\<close> on a \<^verbatim>\<open>uint64\<close> accumulator: a byte that
  is not a decimal digit is a syntax error; \<^verbatim>\<open>n >= cutoff\<close> (where \<^verbatim>\<open>n*10\<close> would
  overflow) and a wrapped or too large \<^verbatim>\<open>n*10 + d\<close> are range errors.
\<close>

fun ParseUint_loop :: "nat \<Rightarrow> string \<Rightarrow> NumError + nat" where
  "ParseUint_loop n [] = Inr n"
| "ParseUint_loop n (c # cs) =
     (if \<not> is_digit c then Inl ErrSyntax
      else if n \<ge> maxUint64 div 10 + 1 then Inl ErrRange
      else
        let n' = n * 10;
            n1 = (n' + digit_val c) mod 2 ^ 64
        in if n1 < n' \<or> n1 > maxUint64 then Inl ErrRange
           else ParseUint_loop n1 cs)"

definition ParseUint :: "string \<Rightarrow> NumError + nat" where
  "ParseUint s = (if s = [] then Inl ErrSyntax else ParseUint_loop 0 s)"

text \<open>
  \<^verbatim>\<open>strconv.ParseInt(s, 10, 64)\<close>: an optional sign, then \<^verbatim>\<open>ParseUint\<close>, then the check
  against the \<^verbatim>\<open>int64\<close> range. The source only tests \<^verbatim>\<open>err != nil\<close>, so the value that
  Go returns beside an error is left out.
\<close>

definition ParseInt :: "string \<Rightarrow> NumError + int" where
  "ParseInt s =
     (case s of
        [] \<Rightarrow> Inl ErrSyntax
      | c # cs \<Rightarrow>
          let neg = (c = CHR ''-'');
              s' = (if c = CHR ''+'' \<or> c = CHR ''-'' then cs else s)
          in case ParseUint s' of
               Inl e \<Rightarrow> Inl e
             | Inr un \<Rightarrow>
                 if \<not> neg \<and> un \<ge> 2 ^ 63 then Inl ErrRange
                 else if neg \<and> un > 2 ^ 63 then Inl ErrRange
                 else Inr (if neg then - int un else int un))"

text \<open>The digit table of \<^verbatim>\<open>strconv\<close>; \<open>FormatUint\<close> only reads it below ten.\<close>

definition digit_char :: "nat \<Rightarrow> char" where
  "digit_char d = ''0123456789'' ! d"

function FormatUint :: "nat \<Rightarrow> string" where
  "FormatUint n =
     (if n < 10 then [digit_char n]
      else FormatUint (n div 10) @ [digit_char (n mod 10)])"
  by pat_completeness auto
termination
  by (relation "measure id") auto

declare FormatUint.simps [simp del]

text \<open>
  \<^verbatim>\<open>strconv.FormatInt(i, 10)\<close>, which is also what \<^verbatim>\<open>fmt.Sprintf\<close> prints for
  \<^verbatim>\<open>%d\<close>.
\<close>

definition FormatInt :: "int \<Rightarrow> string" where
  "FormatInt i = (if i < 0 then CHR ''-'' # FormatUint (nat (- i)) else FormatUint (nat i))"

section \<open>The range parser\<close>

text \<open>
  Go's \<^verbatim>\<open>int64\<close> arithmetic wraps around silently; \<open>wrap64\<close> is the value an
  \<^verbatim>\<open>int64\<close> holds after an operation whose exact result is \<open>x\<close>.
\<close>

definition wrap64 :: "int \<Rightarrow> int" where
  "wrap64 x = (x + 2 ^ 63) mod 2 ^ 64 - 2 ^ 63"

record rangeSpec =
  range_start :: int
  range_end :: int
  range_size :: int

text \<open>
  What a call can do: return a value, return an error (\<^verbatim>\<open>errors.New\<close> with its
  message), or panic (a slice or index expression out of range).
\<close>

datatype 'a outcome = Ok 'a | Err string | Panic

text \<open>The slice expressions \<^verbatim>\<open>s[i:]\<close> and \<^verbatim>\<open>s[:j]\<close>, which panic out of range.\<close>

definition slice_from :: "string \<Rightarrow> int \<Rightarrow> string option" where
  "slice_from s i = (if 0 \<le> i \<and> i \<le> int (length s) then Some (drop (nat i) s) else None)"

definition slice_to :: "string \<Rightarrow> int \<Rightarrow> string option" where
  "slice_to s j = (if 0 \<le> j \<and> j \<le> int (length s) then Some (take (nat j) s) else None)"

text \<open>
  Lines 39 to 45 of \<^verbatim>\<open>parseRangeHeader\<close>: the text after \<^verbatim>\<open>bytes=\<close>, cut down to its
  first comma-separated range and trimmed when it holds a comma. \<^verbatim>\<open>parts[0]\<close> panics
  on an empty slice.
\<close>

definition firstRange :: "string \<Rightarrow> string outcome" where
  "firstRange rangeHeader =
     (let ranges = TrimPrefix rangeHeader ''bytes=''
      in if Contains ranges '','' then
           (case Split ranges (CHR '','') of
              [] \<Rightarrow> Panic
            | p # _ \<Rightarrow> Ok (TrimSpace p))
         else Ok ranges)"

text \<open>
  Lines 47 to 85: \<^verbatim>\<open>start\<close> and \<^verbatim>\<open>end\<close> of the three forms \<^verbatim>\<open>-N\<close>, \<^verbatim>\<open>N-\<close> and
  \<^verbatim>\<open>N-M\<close>, before the bounds are checked.
\<close>

definition rangeBounds :: "string \<Rightarrow> int \<Rightarrow> (int \<times> int) outcome" where
  "rangeBounds ranges fileSize =
     (if HasPrefix ranges ''-'' then
        (case slice_from ranges 1 of
           None \<Rightarrow> Panic
         | Some t \<Rightarrow>
             (case ParseInt t of
                Inl _ \<Rightarrow> Err ''suffix range invalide''
              | Inr suffixLength \<Rightarrow>
                  Ok (if suffixLength \<ge> fileSize then 0
                      else wrap64 (fileSize - suffixLength),
                      wrap64 (fileSize - 1))))
      else if HasSuffix ranges ''-'' then
        (case slice_to ranges (int (length ranges) - 1) of
           None \<Rightarrow> Panic
         | Some t \<Rightarrow>
             (case ParseInt t of
                Inl _ \<Rightarrow> Err ''start range invalide''
              | Inr start' \<Rightarrow> Ok (start', wrap64 (fileSize - 1))))
      else
        (case Split ranges (CHR ''-'') of
           [p0, p1] \<Rightarrow>
             (case ParseInt p0 of
                Inl _ \<Rightarrow> Err ''start range invalide''
              | Inr start' \<Rightarrow>
                  (case ParseInt p1 of
                     Inl _ \<Rightarrow> Err ''end range invalide''
                   | Inr end' \<Rightarrow> Ok (start', end')))
         | _ \<Rightarrow> Err ''format range invalide''))"

text \<open>
  \<^verbatim>\<open>parseRangeHeader\<close>: \<open>Ok None\<close> is the pair \<^verbatim>\<open>(nil, nil)\<close> (no range, the whole
  file), \<open>Ok (Some r)\<close> a range, \<open>Err m\<close> the pair \<^verbatim>\<open>(nil, errors.New(m))\<close>.
\<close>

definition parseRangeHeader :: "string \<Rightarrow> int \<Rightarrow> rangeSpec option outcome" where
  "parseRangeHeader rangeHeader fileSize =
     (if rangeHeader = [] then Ok None
      else if \<not> HasPrefix rangeHeader ''bytes='' then Err ''format range invalide''
      else
        (case firstRange rangeHeader of
           Panic \<Rightarrow> Panic
         | Err m \<Rightarrow> Err m
         | Ok ranges \<Rightarrow>
             (case rangeBounds ranges fileSize of
                Panic \<Rightarrow> Panic
              | Err m \<Rightarrow> Err m
              | Ok (start', end') \<Rightarrow>
                  if start' < 0 \<or> start' \<ge> fileSize \<or> end' < start' \<or> end' \<ge> fileSize
                  then Err ''range hors limites''
                  else Ok (Some \<lparr>range_start = start', range_end = end',
                                 range_size = wrap64 (wrap64 (end' - start') + 1)\<rparr>))))"

text \<open>The values an \<^verbatim>\<open>int64\<close> can hold.\<close>

definition is_int64 :: "int \<Rightarrow> bool" where
  "is_int64 x = (- (2 ^ 63) \<le> x \<and> x < 2 ^ 63)"

text \<open>
  Two notions used to state properties of the parser, independent of its code: a
  component is numeric when it is an optional sign followed by at least one decimal
  digit, and \<open>dec_val\<close> is the number that a string of digits denotes.
\<close>

definition is_numeric :: "string \<Rightarrow> bool" where
  "is_numeric s =
     (case s of
        [] \<Rightarrow> False
      | c # cs \<Rightarrow>
          let ds = (if c = CHR ''+'' \<or> c = CHR ''-'' then cs else s)
          in ds \<noteq> [] \<and> list_all is_digit ds)"

fun dec_val :: "nat \<Rightarrow> string \<Rightarrow> nat" where
  "dec_val a [] = a"
| "dec_val a (c # cs) = dec_val (a * 10 + digit_val c) cs"

section \<open>The download handlers\<close>

subsection \<open>Tokens and the single-use ledger\<close>

text \<open>
  The payloads of \<^verbatim>\<open>router/tokens\<close>, with the fields the handlers read.
  \<open>UniqueId\<close> is the single-use marker that \<^verbatim>\<open>IsUniqueRequest\<close> looks up.
\<close>

record payload =
  ServerUuid :: string
  UniqueId :: string

record BackupPayload = payload +
  BackupUuid :: string

record FilePayload = payload +
  FilePath :: string

type_synonym tokenStore = "string set"

text \<open>
  Modelled from the spec: \<^verbatim>\<open>IsUniqueRequest\<close> of \<^verbatim>\<open>router/tokens\<close> is not in
  \<^verbatim>\<open>src/\<close>. The specification (4.3) gives it as the operation that returns true and
  marks the token consumed on the first call for a given token, and returns false on
  every later call. The store holds the markers of the consumed tokens.
\<close>

definition IsUniqueRequest :: "string \<Rightarrow> tokenStore \<Rightarrow> bool \<times> tokenStore" where
  "IsUniqueRequest uid ts = (uid \<notin> ts, insert uid ts)"

subsection \<open>Files, the request and the response\<close>

datatype error = ErrNotExist | ErrOther string

record FileInfo =
  Name :: string
  Size :: int
  ModTime :: nat
  IsDir :: bool

text \<open>
  An open file: its bytes, the read offset, and the error its \<^verbatim>\<open>Seek\<close> returns, if
  any.
\<close>

record File =
  contents :: string
  offset :: nat
  seek_error :: "error option"

definition Seek :: "File \<Rightarrow> int \<Rightarrow> error + File" where
  "Seek f off =
     (case seek_error f of
        Some e \<Rightarrow> Inl e
      | None \<Rightarrow>
          if off < 0 then Inl (ErrOther ''invalid argument'')
          else Inr (f\<lparr>offset := nat off\<rparr>))"

text \<open>
  The part of \<^verbatim>\<open>gin.Context\<close> that the handlers touch: the \<^verbatim>\<open>token\<close> query parameter
  and the \<^verbatim>\<open>Range\<close> request header, and the response (status, headers, body written so
  far, the abort flag). \<open>peer_accepts\<close> is the number of body bytes the client takes
  before it closes the connection (\<open>None\<close>: it stays), \<open>debug_log\<close> the messages sent
  to the request logger, \<open>panicked\<close> a panic that unwound the handler.
\<close>

record Context =
  token_query :: string
  range_header :: string
  status :: nat
  headers :: "string \<rightharpoonup> string"
  body :: string
  aborted :: bool
  peer_accepts :: "nat option"
  debug_log :: "string list"
  panicked :: bool

definition StatusOK :: nat where
  "StatusOK = 200"

definition StatusPartialContent :: nat where
  "StatusPartialContent = 206"

definition StatusNotFound :: nat where
  "StatusNotFound = 404"

definition StatusRequestedRangeNotSatisfiable :: nat where
  "StatusRequestedRangeNotSatisfiable = 416"

text \<open>\<^verbatim>\<open>c.Header(key, value)\<close> sets a response header; an empty value deletes it.\<close>

definition Header :: "string \<Rightarrow> string \<Rightarrow> Context \<Rightarrow> Context" where
  "Header key val c =
     (if val = [] then c\<lparr>headers := (headers c)(key := None)\<rparr>
      else c\<lparr>headers := (headers c)(key \<mapsto> val)\<rparr>)"

definition Status :: "nat \<Rightarrow> Context \<Rightarrow> Context" where
  "Status code c = c\<lparr>status := code\<rparr>"

definition AbortWithStatus :: "nat \<Rightarrow> Context \<Rightarrow> Context" where
  "AbortWithStatus code c = c\<lparr>status := code, aborted := True\<rparr>"

text \<open>
  \<^verbatim>\<open>c.AbortWithStatusJSON(code, gin.H{"error": msg})\<close>: abort, set the status, set the
  content type unless one is set, and write the object. The messages of this file
  need no JSON escaping.
\<close>

definition json_error :: "string \<Rightarrow> string" where
  "json_error msg =
     ''{'' @ [CHR 0x22] @ ''error'' @ [CHR 0x22] @ '':'' @ [CHR 0x22] @ msg @ [CHR 0x22] @ ''}''"

definition AbortWithStatusJSON :: "nat \<Rightarrow> string \<Rightarrow> Context \<Rightarrow> Context" where
  "AbortWithStatusJSON code msg c =
     c\<lparr>status := code,
       headers := (case headers c ''Content-Type'' of
                     None \<Rightarrow> (headers c)(''Content-Type'' \<mapsto> ''application/json; charset=utf-8'')
                   | Some _ \<Rightarrow> headers c),
       body := body c @ json_error msg,
       aborted := True\<rparr>"

text \<open>
  Writing to \<^verbatim>\<open>c.Writer\<close>: the bytes the client still takes are appended to the body;
  a write that the client does not take whole fails.
\<close>

datatype io_error = EOF | ErrWrite

definition Write :: "string \<Rightarrow> Context \<Rightarrow> Context \<times> io_error option" where
  "Write data c =
     (case peer_accepts c of
        None \<Rightarrow> (c\<lparr>body := body c @ data\<rparr>, None)
      | Some k \<Rightarrow>
          let room = k - length (body c)
          in if length data \<le> room then (c\<lparr>body := body c @ data\<rparr>, None)
             else (c\<lparr>body := body c @ take room data\<rparr>, Some ErrWrite))"

text \<open>
  \<^verbatim>\<open>io.CopyN(c.Writer, f, n)\<close> copies \<open>n\<close> bytes from the offset of \<open>f\<close>: the error of
  the write if it fails, \<^verbatim>\<open>io.EOF\<close> if the file ends before \<open>n\<close> bytes.
\<close>

definition CopyN :: "Context \<Rightarrow> File \<Rightarrow> int \<Rightarrow> Context \<times> io_error option" where
  "CopyN c f n =
     (let chunk = take (nat n) (drop (offset f) (contents f));
          (c', werr) = Write chunk c
      in (c', if werr \<noteq> None then werr
              else if int (length chunk) < n then Some EOF else None))"

text \<open>
  \<^verbatim>\<open>bufio.NewReaderSize(f, bufferSize).WriteTo(c.Writer)\<close> copies the rest of the file;
  the buffer size does not change what is written.
\<close>

definition WriteTo :: "File \<Rightarrow> int \<Rightarrow> Context \<Rightarrow> Context \<times> io_error option" where
  "WriteTo f bufferSize c = Write (drop (offset f) (contents f)) c"

definition Debug :: "string \<Rightarrow> Context \<Rightarrow> Context" where
  "Debug msg c = c\<lparr>debug_log := debug_log c @ [msg]\<rparr>"

subsection \<open>The collaborators of the handlers\<close>

text \<open>
  What the handlers call outside \<^verbatim>\<open>router_download.go\<close>, taken as parameters:
  \<^verbatim>\<open>tokens.ParseToken\<close> into either payload, \<^verbatim>\<open>manager.Get\<close>, \<^verbatim>\<open>uuid.Parse\<close>
  (\<open>None\<close>: valid), \<^verbatim>\<open>backup.LocateLocal\<close> (the path of the backup and its
  \<^verbatim>\<open>os.FileInfo\<close>), \<^verbatim>\<open>os.Open\<close>, \<^verbatim>\<open>middleware.CaptureAndAbort\<close>,
  \<^verbatim>\<open>strconv.Quote\<close>, and the formatting of a time in \<^verbatim>\<open>http.TimeFormat\<close>. A server
  is its \<^verbatim>\<open>Filesystem().File\<close>.
\<close>

record Server =
  Filesystem_File :: "string \<Rightarrow> error + File \<times> FileInfo"

record env =
  ParseBackupToken :: "string \<Rightarrow> error + BackupPayload"
  ParseFileToken :: "string \<Rightarrow> error + FilePayload"
  manager_Get :: "string \<Rightarrow> Server option"
  uuid_Parse :: "string \<Rightarrow> error option"
  LocateLocal :: "string \<Rightarrow> error + string \<times> FileInfo"
  os_Open :: "string \<Rightarrow> error + File"
  CaptureAndAbort :: "error \<Rightarrow> Context \<Rightarrow> Context"
  Quote :: "string \<Rightarrow> string"
  TimeFormat :: "nat \<Rightarrow> string"

text \<open>
  The response of the guards that answer \<^verbatim>\<open>http.StatusNotFound\<close> with the message
  \<^verbatim>\<open>The requested resource was not found on this server.\<close>
\<close>

definition notFound :: "Context \<Rightarrow> Context" where
  "notFound c =
     AbortWithStatusJSON StatusNotFound
       ''The requested resource was not found on this server.'' c"

subsection \<open>\<^verbatim>\<open>getDownloadBackupHead\<close> and \<^verbatim>\<open>getDownloadBackup\<close>\<close>

text \<open>
  Every handler takes the ledger of consumed tokens and returns it, changed or not,
  beside the response.
\<close>

definition getDownloadBackupHead :: "env \<Rightarrow> tokenStore \<Rightarrow> Context \<Rightarrow> Context \<times> tokenStore" where
  "getDownloadBackupHead E ts c =
     (case ParseBackupToken E (token_query c) of
        Inl err \<Rightarrow> (CaptureAndAbort E err c, ts)
      | Inr token \<Rightarrow>
          (case manager_Get E (ServerUuid token) of
             None \<Rightarrow> (notFound c, ts)
           | Some _ \<Rightarrow>
               (case uuid_Parse E (BackupUuid token) of
                  Some err \<Rightarrow> (CaptureAndAbort E err c, ts)
                | None \<Rightarrow>
                    (case LocateLocal E (BackupUuid token) of
                       Inl err \<Rightarrow>
                         if err = ErrNotExist then
                           (AbortWithStatusJSON StatusNotFound
                              ''The requested backup was not found on this server.'' c, ts)
                         else (CaptureAndAbort E err c, ts)
                     | Inr (path, st) \<Rightarrow>
                         (case os_Open E path of
                            Inl err \<Rightarrow> (CaptureAndAbort E err c, ts)
                          | Inr f \<Rightarrow>
                              (Status StatusOK
                                (Header ''Last-Modified'' (TimeFormat E (ModTime st))
                                (Header ''Accept-Ranges'' ''bytes''
                                (Header ''Content-Type'' ''application/octet-stream''
                                (Header ''Content-Disposition''
                                   (''attachment; filename='' @ Quote E (Name st))
                                (Header ''Content-Length'' (FormatInt (Size st)) c))))),
                               ts))))))"

text \<open>
  Lines 203 to 256 of \<^verbatim>\<open>getDownloadBackup\<close>: the range is parsed against the size of
  the backup, then the headers are set and the body is streamed.
\<close>

definition sendBackup :: "env \<Rightarrow> File \<Rightarrow> FileInfo \<Rightarrow> Context \<Rightarrow> Context" where
  "sendBackup E f st c =
     (let fileSize = Size st in
      case parseRangeHeader (range_header c) fileSize of
        Panic \<Rightarrow> c\<lparr>panicked := True\<rparr>
      | Err _ \<Rightarrow>
          AbortWithStatus StatusRequestedRangeNotSatisfiable
            (Header ''Content-Range'' (''bytes */'' @ FormatInt fileSize) c)
      | Ok rangeSpec \<Rightarrow>
          let c1 = Header ''Accept-Ranges'' ''bytes''
                     (Header ''Content-Type'' ''application/octet-stream''
                     (Header ''Content-Disposition''
                        (''attachment; filename='' @ Quote E (Name st)) c))
          in case rangeSpec of
               Some r \<Rightarrow>
                 let c2 = Status StatusPartialContent
                            (Header ''Content-Length'' (FormatInt (range_size r))
                            (Header ''Content-Range''
                               (''bytes '' @ FormatInt (range_start r) @ ''-''
                                  @ FormatInt (range_end r) @ ''/'' @ FormatInt fileSize) c1))
                 in (case Seek f (range_start r) of
                       Inl err \<Rightarrow> CaptureAndAbort E err c2
                     | Inr f' \<Rightarrow>
                         let (c3, err) = CopyN c2 f' (range_size r)
                         in if err \<noteq> None \<and> err \<noteq> Some EOF then
                              Debug (''erreur streaming backup partiel (connexion probablement ferm''
                                       @ [CHR 0xC3, CHR 0xA9] @ ''e)'') c3
                            else c3)
             | None \<Rightarrow>
                 let c2 = Status StatusOK (Header ''Content-Length'' (FormatInt fileSize) c1);
                     bufferSize = (if fileSize > 1024 * 1024 * 1024 then 2 * 1024 * 1024
                                   else 64 * 1024);
                     (c3, err) = WriteTo f bufferSize c2
                 in if err \<noteq> None \<and> err \<noteq> Some EOF then
                      Debug (''erreur streaming backup (connexion probablement ferm''
                               @ [CHR 0xC3, CHR 0xA9] @ ''e)'') c3
                    else c3)"

text \<open>
  The guard of line 169 is \<^verbatim>\<open>!ok || !token.IsUniqueRequest()\<close>; Go evaluates the
  right operand only when the left one is false, so the ledger is consulted, and the
  token marked, only when the server was found. Both operands lead to the same response.
\<close>

definition getDownloadBackup :: "env \<Rightarrow> tokenStore \<Rightarrow> Context \<Rightarrow> Context \<times> tokenStore" where
  "getDownloadBackup E ts c =
     (case ParseBackupToken E (token_query c) of
        Inl err \<Rightarrow> (CaptureAndAbort E err c, ts)
      | Inr token \<Rightarrow>
          (case manager_Get E (ServerUuid token) of
             None \<Rightarrow> (notFound c, ts)
           | Some _ \<Rightarrow>
               let (unique, ts') = IsUniqueRequest (UniqueId token) ts
               in if \<not> unique then (notFound c, ts')
                  else
                    (case uuid_Parse E (BackupUuid token) of
                       Some err \<Rightarrow> (CaptureAndAbort E err c, ts')
                     | None \<Rightarrow>
                         (case LocateLocal E (BackupUuid token) of
                            Inl err \<Rightarrow>
                              if err = ErrNotExist then
                                (AbortWithStatusJSON StatusNotFound
                                   ''The requested backup was not found on this server.'' c,
                                 ts')
                              else (CaptureAndAbort E err c, ts')
                          | Inr (path, st) \<Rightarrow>
                              (case os_Open E path of
                                 Inl err \<Rightarrow> (CaptureAndAbort E err c, ts')
                               | Inr f \<Rightarrow> (sendBackup E f st c, ts'))))))"

subsection \<open>\<^verbatim>\<open>getDownloadFileHead\<close> and \<^verbatim>\<open>getDownloadFile\<close>\<close>

definition getDownloadFileHead :: "env \<Rightarrow> tokenStore \<Rightarrow> Context \<Rightarrow> Context \<times> tokenStore" where
  "getDownloadFileHead E ts c =
     (case ParseFileToken E (token_query c) of
        Inl err \<Rightarrow> (CaptureAndAbort E err c, ts)
      | Inr token \<Rightarrow>
          (case manager_Get E (ServerUuid token) of
             None \<Rightarrow> (notFound c, ts)
           | Some s \<Rightarrow>
               (case Filesystem_File s (FilePath token) of
                  Inl err \<Rightarrow> (CaptureAndAbort E err c, ts)
                | Inr (f, st) \<Rightarrow>
                    if IsDir st then (notFound c, ts)
                    else
                      (Status StatusOK
                        (Header ''Last-Modified'' (TimeFormat E (ModTime st))
                        (Header ''Accept-Ranges'' ''bytes''
                        (Header ''Content-Type'' ''application/octet-stream''
                        (Header ''Content-Disposition''
                           (''attachment; filename='' @ Quote E (Name st))
                        (Header ''Content-Length'' (FormatInt (Size st)) c))))),
                       ts))))"

text \<open>Lines 341 to 394 of \<^verbatim>\<open>getDownloadFile\<close>.\<close>

definition sendFile :: "env \<Rightarrow> File \<Rightarrow> FileInfo \<Rightarrow> Context \<Rightarrow> Context" where
  "sendFile E f st c =
     (let fileSize = Size st in
      case parseRangeHeader (range_header c) fileSize of
        Panic \<Rightarrow> c\<lparr>panicked := True\<rparr>
      | Err _ \<Rightarrow>
          AbortWithStatus StatusRequestedRangeNotSatisfiable
            (Header ''Content-Range'' (''bytes */'' @ FormatInt fileSize) c)
      | Ok rangeSpec \<Rightarrow>
          let c1 = Header ''Accept-Ranges'' ''bytes''
                     (Header ''Content-Type'' ''application/octet-stream''
                     (Header ''Content-Disposition''
                        (''attachment; filename='' @ Quote E (Name st)) c))
          in case rangeSpec of
               Some r \<Rightarrow>
                 let c2 = Status StatusPartialContent
                            (Header ''Content-Length'' (FormatInt (range_size r))
                            (Header ''Content-Range''
                               (''bytes '' @ FormatInt (range_start r) @ ''-''
                                  @ FormatInt (range_end r) @ ''/'' @ FormatInt fileSize) c1))
                 in (case Seek f (range_start r) of
                       Inl err \<Rightarrow> CaptureAndAbort E err c2
                     | Inr f' \<Rightarrow>
                         let (c3, err) = CopyN c2 f' (range_size r)
                         in if err \<noteq> None \<and> err \<noteq> Some EOF then
                              Debug (''erreur streaming file partiel (connexion probablement ferm''
                                       @ [CHR 0xC3, CHR 0xA9] @ ''e)'') c3
                            else c3)
             | None \<Rightarrow>
                 let c2 = Status StatusOK (Header ''Content-Length'' (FormatInt fileSize) c1);
                     bufferSize = (if fileSize > 100 * 1024 * 1024 then 1024 * 1024
                                   else 64 * 1024);
                     (c3, err) = WriteTo f bufferSize c2
                 in if err \<noteq> None \<and> err \<noteq> Some EOF then
                      Debug (''erreur streaming file (connexion probablement ferm''
                               @ [CHR 0xC3, CHR 0xA9] @ ''e)'') c3
                    else c3)"

definition getDownloadFile :: "env \<Rightarrow> tokenStore \<Rightarrow> Context \<Rightarrow> Context \<times> tokenStore" where
  "getDownloadFile E ts c =
     (case ParseFileToken E (token_query c) of
        Inl err \<Rightarrow> (CaptureAndAbort E err c, ts)
      | Inr token \<Rightarrow>
          (case manager_Get E (ServerUuid token) of
             None \<Rightarrow> (notFound c, ts)
           | Some s \<Rightarrow>
               let (unique, ts') = IsUniqueRequest (UniqueId token) ts
               in if \<not> unique then (notFound c, ts')
                  else
                    (case Filesystem_File s (FilePath token) of
                       Inl err \<Rightarrow> (CaptureAndAbort E err c, ts')
                     | Inr (f, st) \<Rightarrow>
                         if IsDir st then (notFound c, ts')
                         else (sendFile E f st c, ts'))))"

section \<open>Notions used to state the properties of the handlers\<close>

text \<open>
  A \<^verbatim>\<open>GET\<close> for a backup reaches the parsing of the range with the open file \<open>f\<close> and
  the metadata \<open>st\<close>: the token parses, its server is known, the token is not yet
  consumed, the backup identifier is a UUID, and the backup is located and opened.
\<close>

definition backup_resolves ::
  "env \<Rightarrow> tokenStore \<Rightarrow> Context \<Rightarrow> BackupPayload \<Rightarrow> string \<Rightarrow> File \<Rightarrow> FileInfo \<Rightarrow> bool" where
  "backup_resolves E ts c token path f st =
     (ParseBackupToken E (token_query c) = Inr token \<and>
      manager_Get E (ServerUuid token) \<noteq> None \<and>
      UniqueId token \<notin> ts \<and>
      uuid_Parse E (BackupUuid token) = None \<and>
      LocateLocal E (BackupUuid token) = Inr (path, st) \<and>
      os_Open E path = Inr f)"

text \<open>
  The same for a file of a server; here the handler also requires that the file is not a
  directory.
\<close>

definition file_resolves ::
  "env \<Rightarrow> tokenStore \<Rightarrow> Context \<Rightarrow> FilePayload \<Rightarrow> Server \<Rightarrow> File \<Rightarrow> FileInfo \<Rightarrow> bool" where
  "file_resolves E ts c token s f st =
     (ParseFileToken E (token_query c) = Inr token \<and>
      manager_Get E (ServerUuid token) = Some s \<and>
      UniqueId token \<notin> ts \<and>
      Filesystem_File s (FilePath token) = Inr (f, st) \<and>
      \<not> IsDir st)"

text \<open>
  The response \<^verbatim>\<open>416 Range Not Satisfiable\<close>: the status, the header
  \<^verbatim>\<open>Content-Range: bytes */<total>\<close>, nothing written to the body.
\<close>

definition rangeNotSatisfiable :: "int \<Rightarrow> Context \<Rightarrow> Context" where
  "rangeNotSatisfiable tot c =
     c\<lparr>status := StatusRequestedRangeNotSatisfiable,
       headers := (headers c)(''Content-Range'' \<mapsto> ''bytes */'' @ FormatInt tot),
       aborted := True\<rparr>"

text \<open>
  The response \<^verbatim>\<open>206 Partial Content\<close> for the range \<open>r\<close> of a resource of \<open>tot\<close>
  bytes: its status and headers, and its body, the \<open>range_size r\<close> bytes of the file
  from the offset \<open>range_start r\<close>, appended to what the response held before.
\<close>

definition partialHeaders :: "rangeSpec \<Rightarrow> int \<Rightarrow> Context \<Rightarrow> bool" where
  "partialHeaders r tot c' =
     (status c' = StatusPartialContent \<and>
      headers c' ''Content-Length'' = Some (FormatInt (range_size r)) \<and>
      headers c' ''Content-Range'' =
        Some (''bytes '' @ FormatInt (range_start r) @ ''-'' @ FormatInt (range_end r)
                @ ''/'' @ FormatInt tot))"

definition partialContent :: "rangeSpec \<Rightarrow> int \<Rightarrow> File \<Rightarrow> Context \<Rightarrow> Context \<Rightarrow> bool" where
  "partialContent r tot f c c' =
     (status c' = StatusPartialContent \<and>
      headers c' ''Content-Length'' = Some (FormatInt (range_size r)) \<and>
      headers c' ''Content-Range'' =
        Some (''bytes '' @ FormatInt (range_start r) @ ''-'' @ FormatInt (range_end r)
                @ ''/'' @ FormatInt tot) \<and>
      body c' = body c @ take (nat (range_size r)) (drop (nat (range_start r)) (contents f)) \<and>
      length (body c') = length (body c) + nat (range_size r))"

text \<open>
  A client that sends the same request \<open>n\<close> times to a handler \<open>h\<close>: the responses in
  order, and the ledger after the last one.
\<close>

fun repeat_request ::
  "(tokenStore \<Rightarrow> Context \<Rightarrow> Context \<times> tokenStore) \<Rightarrow> Context \<Rightarrow> nat \<Rightarrow> tokenStore
     \<Rightarrow> Context list \<times> tokenStore" where
  "repeat_request h c 0 ts = ([], ts)"
| "repeat_request h c (Suc n) ts =
     (let (r, ts1) = h ts c;
          (rs, ts2) = repeat_request h c n ts1
      in (r # rs, ts2))"

subsection \<open>An example deployment\<close>

text \<open>
  One server \<^verbatim>\<open>srv\<close> with the file \<^verbatim>\<open>/world\<close> and the backup \<^verbatim>\<open>bk\<close>, both of \<open>n\<close>
  bytes; \<open>d\<close> says whether their metadata is flagged as a directory. The token
  \<^verbatim>\<open>tok\<close> names that server, the token \<^verbatim>\<open>tok2\<close> a server that is not there. A fresh
  request has the status 200 of a new \<^verbatim>\<open>gin\<close> response writer and nothing written.
\<close>

definition example_info :: "nat \<Rightarrow> bool \<Rightarrow> FileInfo" where
  "example_info n d = \<lparr>Name = ''world.tar.gz'', Size = int n, ModTime = 0, IsDir = d\<rparr>"

definition example_file :: "nat \<Rightarrow> File" where
  "example_file n = \<lparr>contents = replicate n (CHR ''x''), offset = 0, seek_error = None\<rparr>"

definition example_env :: "nat \<Rightarrow> bool \<Rightarrow> env" where
  "example_env n d =
     \<lparr>ParseBackupToken =
        (\<lambda>t. if t = ''tok'' then
                Inr \<lparr>ServerUuid = ''srv'', UniqueId = ''u1'', BackupUuid = ''bk''\<rparr>
              else if t = ''tok2'' then
                Inr \<lparr>ServerUuid = ''gone'', UniqueId = ''u2'', BackupUuid = ''bk''\<rparr>
              else Inl (ErrOther ''bad token'')),
      ParseFileToken =
        (\<lambda>t. if t = ''tok'' then
                Inr \<lparr>ServerUuid = ''srv'', UniqueId = ''u1'', FilePath = ''/world''\<rparr>
              else if t = ''tok2'' then
                Inr \<lparr>ServerUuid = ''gone'', UniqueId = ''u2'', FilePath = ''/world''\<rparr>
              else Inl (ErrOther ''bad token'')),
      manager_Get =
        (\<lambda>u. if u = ''srv'' then
                Some \<lparr>Filesystem_File =
                  (\<lambda>p. if p = ''/world'' then Inr (example_file n, example_info n d)
                        else Inl ErrNotExist)\<rparr>
              else None),
      uuid_Parse = (\<lambda>u. None),
      LocateLocal =
        (\<lambda>u. if u = ''bk'' then Inr (''/backups/bk.tar.gz'', example_info n d)
              else Inl ErrNotExist),
      os_Open = (\<lambda>p. Inr (example_file n)),
      CaptureAndAbort = (\<lambda>e. AbortWithStatus 500),
      Quote = (\<lambda>s. [CHR 0x22] @ s @ [CHR 0x22]),
      TimeFormat = (\<lambda>t. ''Thu, 01 Jan 1970 00:00:00 GMT'')\<rparr>"

definition request :: "string \<Rightarrow> string \<Rightarrow> Context" where
  "request tok rng =
     \<lparr>token_query = tok, range_header = rng, status = 200, headers = Map.empty, body = [],
      aborted = False, peer_accepts = None, debug_log = [], panicked = False\<rparr>"

section \<open>Properties of the string and number functions\<close>

text \<open>The equations that evaluate the parser and the formatter on a literal.\<close>

lemmas parse_eval = parseRangeHeader_def firstRange_def rangeBounds_def HasPrefix_def
  HasSuffix_def suffix_to_prefix TrimPrefix_def Contains_def sublist_Cons_right slice_from_def
  slice_to_def ParseInt_def ParseUint_def is_digit_def digit_val_def maxUint64_def wrap64_def
  Let_def

lemmas format_eval = FormatInt_def FormatUint.simps digit_char_def

lemma Contains_byte: "Contains s [c] \<longleftrightarrow> c \<in> set s"
  unfolding Contains_def by (induction s) (auto simp: sublist_Cons_right)

lemma Split_nonempty: "Split s sep \<noteq> []"
  by (induction s) auto

lemma Split_no_sep: "sep \<notin> set s \<Longrightarrow> Split s sep = [s]"
  by (induction s) auto

lemma Split_append: "sep \<notin> set a \<Longrightarrow> Split (a @ sep # b) sep = a # Split b sep"
  by (induction a) auto

lemma digit_cases: "d < 10 \<Longrightarrow> d \<in> {0, 1, 2, 3, 4, 5, 6, 7, 8, 9 :: nat}"
  by auto

lemma is_digit_digit_char: "d < 10 \<Longrightarrow> is_digit (digit_char d)"
  using digit_cases [of d] by (auto simp: is_digit_def digit_char_def)

lemma digit_val_digit_char: "d < 10 \<Longrightarrow> digit_val (digit_char d) = d"
  using digit_cases [of d] by (auto simp: digit_val_def digit_char_def)

lemma FormatUint_digits: "c \<in> set (FormatUint n) \<Longrightarrow> is_digit c"
proof (induction n rule: FormatUint.induct)
  case (1 n)
  show ?case
  proof (cases "n < 10")
    case True
    with "1.prems" show ?thesis
      by (subst (asm) FormatUint.simps) (simp add: is_digit_digit_char)
  next
    case False
    with "1.prems" "1.IH" show ?thesis
      by (subst (asm) FormatUint.simps) (auto simp: is_digit_digit_char)
  qed
qed

lemma FormatUint_nonempty: "FormatUint n \<noteq> []"
  by (subst FormatUint.simps) simp

lemma ParseUint_loop_append:
  "ParseUint_loop a (xs @ ys) =
     (case ParseUint_loop a xs of Inl e \<Rightarrow> Inl e | Inr v \<Rightarrow> ParseUint_loop v ys)"
  by (induction xs arbitrary: a) (auto simp: Let_def)

lemma ParseUint_loop_digit:
  assumes "d < 10" "10 * a + d < 2 ^ 64"
  shows "ParseUint_loop a [digit_char d] = Inr (10 * a + d)"
proof -
  have "a < maxUint64 div 10 + 1" using assms by (simp add: maxUint64_def)
  moreover have "(a * 10 + d) mod 2 ^ 64 = a * 10 + d" using assms by (simp add: mult.commute)
  ultimately show ?thesis using assms
    by (simp add: is_digit_digit_char digit_val_digit_char Let_def maxUint64_def mult.commute)
qed

lemma ParseUint_loop_FormatUint:
  "n < 2 ^ 64 \<Longrightarrow> ParseUint_loop 0 (FormatUint n) = Inr n"
proof (induction n rule: FormatUint.induct)
  case (1 n)
  show ?case
  proof (cases "n < 10")
    case True
    then show ?thesis
      using ParseUint_loop_digit [of n 0] by (subst FormatUint.simps) simp
  next
    case False
    have "n div 10 < 2 ^ 64" using "1.prems" by simp
    with False "1.IH" have ih: "ParseUint_loop 0 (FormatUint (n div 10)) = Inr (n div 10)"
      by simp
    have "10 * (n div 10) + n mod 10 < 2 ^ 64" using "1.prems" by simp
    then have "ParseUint_loop (n div 10) [digit_char (n mod 10)] = Inr n"
      using ParseUint_loop_digit [of "n mod 10" "n div 10"] by simp
    with False ih show ?thesis
      by (subst FormatUint.simps) (simp add: ParseUint_loop_append)
  qed
qed

lemma is_digit_not_sign: "is_digit c \<Longrightarrow> c \<noteq> CHR ''-'' \<and> c \<noteq> CHR ''+'' \<and> c \<noteq> CHR '',''"
  by (auto simp: is_digit_def)

lemma ParseInt_FormatUint:
  assumes "n < 2 ^ 63"
  shows "ParseInt (FormatUint n) = Inr (int n)"
proof -
  obtain c cs where s: "FormatUint n = c # cs"
    using FormatUint_nonempty [of n] by (cases "FormatUint n") auto
  then have "is_digit c" using FormatUint_digits [of c n] by simp
  then have c: "c \<noteq> CHR ''-''" "c \<noteq> CHR ''+''" using is_digit_not_sign by auto
  have "ParseUint (c # cs) = Inr n"
    using ParseUint_loop_FormatUint [of n] assms s by (simp add: ParseUint_def)
  with c assms have "ParseInt (c # cs) = Inr (int n)" by (simp add: ParseInt_def)
  then show ?thesis by (simp only: s)
qed

lemma wrap64_id: "is_int64 x \<Longrightarrow> wrap64 x = x"
  by (simp add: wrap64_def is_int64_def)

lemma HasPrefix_bytes: "HasPrefix (''bytes='' @ r) ''bytes=''"
  by (simp add: HasPrefix_def)

lemma TrimPrefix_bytes: "TrimPrefix (''bytes='' @ r) ''bytes='' = r"
  by (simp add: TrimPrefix_def)

lemma firstRange_single:
  "CHR '','' \<notin> set r \<Longrightarrow> firstRange (''bytes='' @ r) = Ok r"
  using Contains_byte [of r "CHR '',''"]
  by (simp add: firstRange_def TrimPrefix_bytes del: append.simps)


lemma parseRangeHeader_bytes:
  "parseRangeHeader (''bytes='' @ r) S =
     (case firstRange (''bytes='' @ r) of
        Panic \<Rightarrow> Panic
      | Err m \<Rightarrow> Err m
      | Ok ranges \<Rightarrow>
          (case rangeBounds ranges S of
             Panic \<Rightarrow> Panic
           | Err m \<Rightarrow> Err m
           | Ok (start', end') \<Rightarrow>
               if start' < 0 \<or> start' \<ge> S \<or> end' < start' \<or> end' \<ge> S
               then Err ''range hors limites''
               else Ok (Some \<lparr>range_start = start', range_end = end',
                              range_size = wrap64 (wrap64 (end' - start') + 1)\<rparr>)))"
  unfolding parseRangeHeader_def using HasPrefix_bytes [of r] by simp

lemma rangeBounds_suffix:
  "rangeBounds (CHR ''-'' # t) S =
     (case ParseInt t of
        Inl _ \<Rightarrow> Err ''suffix range invalide''
      | Inr n \<Rightarrow> Ok (if n \<ge> S then 0 else wrap64 (S - n), wrap64 (S - 1)))"
  by (simp add: rangeBounds_def HasPrefix_def slice_from_def)

lemma rangeBounds_open:
  assumes "t \<noteq> []" "hd t \<noteq> CHR ''-''"
  shows "rangeBounds (t @ ''-'') S =
     (case ParseInt t of
        Inl _ \<Rightarrow> Err ''start range invalide''
      | Inr n \<Rightarrow> Ok (n, wrap64 (S - 1)))"
proof -
  have "\<not> HasPrefix (t @ ''-'') ''-''"
    using assms by (cases t) (auto simp: HasPrefix_def)
  moreover have "HasSuffix (t @ ''-'') ''-''" by (simp add: HasSuffix_def suffix_def)
  ultimately show ?thesis by (simp add: rangeBounds_def slice_to_def)
qed

lemma rangeBounds_closed:
  assumes "p0 \<noteq> []" "CHR ''-'' \<notin> set p0" "p1 \<noteq> []" "CHR ''-'' \<notin> set p1"
  shows "rangeBounds (p0 @ CHR ''-'' # p1) S =
     (case ParseInt p0 of
        Inl _ \<Rightarrow> Err ''start range invalide''
      | Inr a \<Rightarrow>
          (case ParseInt p1 of
             Inl _ \<Rightarrow> Err ''end range invalide''
           | Inr b \<Rightarrow> Ok (a, b)))"
proof -
  have "\<not> HasPrefix (p0 @ CHR ''-'' # p1) ''-''"
    using assms by (cases p0) (auto simp: HasPrefix_def)
  moreover have "\<not> HasSuffix (p0 @ CHR ''-'' # p1) ''-''"
  proof
    assume "HasSuffix (p0 @ CHR ''-'' # p1) ''-''"
    then obtain zs where "p0 @ CHR ''-'' # p1 = zs @ ''-''"
      by (auto simp: HasSuffix_def suffix_def)
    then have "last (p0 @ CHR ''-'' # p1) = last (zs @ ''-'')" by (rule arg_cong)
    then have "last p1 = CHR ''-''" using assms by simp
    then show False using assms last_in_set [of p1] by auto
  qed
  moreover have "Split (p0 @ CHR ''-'' # p1) (CHR ''-'') = [p0, p1]"
    using assms by (simp add: Split_append Split_no_sep)
  ultimately show ?thesis by (simp add: rangeBounds_def)
qed

lemma FormatUint_no_byte:
  "\<not> is_digit c \<Longrightarrow> c \<notin> set (FormatUint n)"
  using FormatUint_digits by blast

lemma not_digit_dash: "\<not> is_digit (CHR ''-'')" and not_digit_comma: "\<not> is_digit (CHR '','')"
  by (simp_all add: is_digit_def)

lemma FormatInt_nonneg: "0 \<le> i \<Longrightarrow> FormatInt i = FormatUint (nat i)"
  by (simp add: FormatInt_def)

lemma ParseInt_FormatInt_nonneg:
  "0 \<le> i \<Longrightarrow> i < 2 ^ 63 \<Longrightarrow> ParseInt (FormatInt i) = Inr i"
  using ParseInt_FormatUint [of "nat i"] by (simp add: FormatInt_nonneg nat_less_iff)

text \<open>
  Claim C4. For every size \<open>S\<close> (an \<^verbatim>\<open>int64\<close>) and offsets with
  \<open>0 \<le> start \<le> end < S\<close>, parsing the header \<^verbatim>\<open>bytes=start-end\<close>, the offsets
  written in decimal, against \<open>S\<close> succeeds and yields the range
  \<open>{start, end, size = end - start + 1}\<close>.
\<close>

theorem parse_closed_range:
  assumes "0 \<le> a" "a \<le> b" "b < S" "is_int64 S"
  shows "parseRangeHeader (''bytes='' @ FormatInt a @ ''-'' @ FormatInt b) S =
           Ok (Some \<lparr>range_start = a, range_end = b, range_size = b - a + 1\<rparr>)"
proof -
  let ?p0 = "FormatInt a" and ?p1 = "FormatInt b"
  have fa: "?p0 = FormatUint (nat a)" and fb: "?p1 = FormatUint (nat b)"
    using assms by (simp_all add: FormatInt_nonneg)
  have nd: "CHR ''-'' \<notin> set ?p0" "CHR ''-'' \<notin> set ?p1"
    and nc: "CHR '','' \<notin> set ?p0" "CHR '','' \<notin> set ?p1"
    unfolding fa fb by (simp_all add: FormatUint_no_byte not_digit_dash not_digit_comma)
  have ne: "?p0 \<noteq> []" "?p1 \<noteq> []"
    unfolding fa fb by (simp_all add: FormatUint_nonempty)
  have b63: "a < 2 ^ 63" "b < 2 ^ 63" using assms by (simp_all add: is_int64_def)
  have pa: "ParseInt ?p0 = Inr a" and pb: "ParseInt ?p1 = Inr b"
    using assms b63 by (simp_all add: ParseInt_FormatInt_nonneg)
  have "CHR '','' \<notin> set (?p0 @ ''-'' @ ?p1)" using nc by simp
  then have first: "firstRange (''bytes='' @ ?p0 @ ''-'' @ ?p1) = Ok (?p0 @ ''-'' @ ?p1)"
    by (rule firstRange_single)
  have bounds: "rangeBounds (?p0 @ ''-'' @ ?p1) S = Ok (a, b)"
    using rangeBounds_closed [OF ne(1) nd(1) ne(2) nd(2), of S] pa pb by simp
  have w1: "wrap64 (b - a) = b - a"
    using assms b63 by (intro wrap64_id) (simp add: is_int64_def)
  have w2: "wrap64 (b - a + 1) = b - a + 1"
    using assms b63 by (intro wrap64_id) (simp add: is_int64_def)
  show ?thesis
    unfolding parseRangeHeader_bytes first using bounds assms w1 w2 by simp
qed

theorem parse_closed_range_witness:
  "(0::int) \<le> 0 \<and> (0::int) \<le> 99 \<and> (99::int) < 1000 \<and> is_int64 1000 \<and>
   parseRangeHeader ''bytes=0-99'' 1000 =
     Ok (Some \<lparr>range_start = 0, range_end = 99, range_size = 100\<rparr>)"
proof -
  have h: "(0::int) \<le> 0" "(0::int) \<le> 99" "(99::int) < 1000" "is_int64 1000"
    by (simp_all add: is_int64_def)
  have f: "FormatInt 0 = ''0''" "FormatInt 99 = ''99''" by (simp_all add: format_eval)
  show ?thesis using parse_closed_range [OF h] h f by simp
qed



lemma firstRange_no_panic: "firstRange h \<noteq> Panic"
  using Split_nonempty [of "TrimPrefix h ''bytes=''" "CHR '',''"]
  by (auto simp: firstRange_def Let_def split: list.splits)

lemma rangeBounds_no_panic: "rangeBounds r S \<noteq> Panic"
proof (cases "HasPrefix r ''-''")
  case True
  then obtain t where "r = CHR ''-'' # t" by (auto simp: HasPrefix_def prefix_def)
  then show ?thesis by (simp add: rangeBounds_suffix split: sum.splits)
next
  case False
  show ?thesis
  proof (cases "HasSuffix r ''-''")
    case True
    then have "r \<noteq> []" by (auto simp: HasSuffix_def suffix_def)
    then have "slice_to r (int (length r) - 1) = Some (take (length r - 1) r)"
      by (cases r) (auto simp: slice_to_def)
    with True False show ?thesis by (simp add: rangeBounds_def split: sum.splits)
  next
    case nosuf: False
    with False show ?thesis
      by (simp add: rangeBounds_def split: sum.splits list.splits)
  qed
qed

lemma parseRangeHeader_no_panic: "parseRangeHeader h S \<noteq> Panic"
  using firstRange_no_panic [of h] rangeBounds_no_panic
  by (auto simp: parseRangeHeader_def split: outcome.splits prod.splits)

lemma ParseUint_loop_digits:
  "ParseUint_loop a s = Inr v \<Longrightarrow> list_all is_digit s"
  by (induction s arbitrary: a) (auto simp: Let_def split: if_splits)

lemma ParseInt_numeric:
  assumes "ParseInt s = Inr v"
  shows "is_numeric s"
proof (cases s)
  case Nil
  with assms show ?thesis by (simp add: ParseInt_def)
next
  case (Cons c cs)
  let ?ds = "if c = CHR ''+'' \<or> c = CHR ''-'' then cs else s"
  from assms Cons obtain un where un: "ParseUint ?ds = Inr un"
    by (auto simp: ParseInt_def Let_def split: sum.splits)
  then have "?ds \<noteq> []" by (auto simp: ParseUint_def split: if_splits)
  moreover from un have "list_all is_digit ?ds"
    using ParseUint_loop_digits [of 0 ?ds un] by (auto simp: ParseUint_def split: if_splits)
  ultimately show ?thesis using Cons by (auto simp: is_numeric_def Let_def split: if_splits)
qed

lemma ParseInt_not_numeric: "\<not> is_numeric s \<Longrightarrow> \<exists>e. ParseInt s = Inl e"
  using ParseInt_numeric [of s] by (cases "ParseInt s") auto

lemma ParseUint_loop_val: "ParseUint_loop a s = Inr v \<Longrightarrow> v = dec_val a s"
proof (induction s arbitrary: a)
  case Nil
  then show ?case by simp
next
  case (Cons c cs)
  let ?n' = "a * 10" and ?d = "digit_val c"
  from Cons.prems have dig: "is_digit c" and lt: "a < maxUint64 div 10 + 1"
    and ok: "\<not> ((?n' + ?d) mod 2 ^ 64 < ?n')"
    and rest: "ParseUint_loop ((?n' + ?d) mod 2 ^ 64) cs = Inr v"
    by (auto simp: Let_def split: if_splits)
  from dig have d9: "?d \<le> 9" unfolding is_digit_def digit_val_def by arith
  have "(?n' + ?d) mod 2 ^ 64 = ?n' + ?d"
  proof (rule ccontr)
    assume neq: "(?n' + ?d) mod 2 ^ 64 \<noteq> ?n' + ?d"
    have big: "2 ^ 64 \<le> ?n' + ?d"
    proof (rule ccontr)
      assume "\<not> 2 ^ 64 \<le> ?n' + ?d"
      then have "(?n' + ?d) mod 2 ^ 64 = ?n' + ?d" by (intro mod_less) simp
      with neq show False by simp
    qed
    have small: "?n' + ?d - 2 ^ 64 < 2 ^ 64" using lt d9 by (simp add: maxUint64_def)
    have "(?n' + ?d) mod 2 ^ 64 = (?n' + ?d - 2 ^ 64) mod 2 ^ 64"
      using big by (rule le_mod_geq)
    also have "\<dots> = ?n' + ?d - 2 ^ 64" using small by (rule mod_less)
    finally have "(?n' + ?d) mod 2 ^ 64 < ?n'" using big d9 by simp
    with ok show False by simp
  qed
  with rest Cons.IH [of "?n' + ?d" ] show ?case by simp
qed

lemma dec_val_append: "dec_val a (xs @ ys) = dec_val (dec_val a xs) ys"
  by (induction xs arbitrary: a) auto

lemma dec_val_FormatUint: "dec_val 0 (FormatUint n) = n"
proof (induction n rule: FormatUint.induct)
  case (1 n)
  show ?case
  proof (cases "n < 10")
    case True
    then show ?thesis by (subst FormatUint.simps) (simp add: digit_val_digit_char)
  next
    case False
    with "1.IH" show ?thesis
      by (subst FormatUint.simps) (simp add: dec_val_append digit_val_digit_char)
  qed
qed

lemma ParseInt_FormatUint_val:
  assumes "ParseInt (FormatUint n) = Inr v"
  shows "v = int n"
proof -
  obtain c cs where s: "FormatUint n = c # cs"
    using FormatUint_nonempty [of n] by (cases "FormatUint n") auto
  then have "is_digit c" using FormatUint_digits [of c n] by simp
  then have c: "c \<noteq> CHR ''-''" "c \<noteq> CHR ''+''" using is_digit_not_sign by auto
  from assms s c obtain un where "ParseUint_loop 0 (c # cs) = Inr un" "v = int un"
    unfolding s ParseInt_def ParseUint_def by (auto simp: Let_def split: sum.splits if_splits)
  then show ?thesis
    using ParseUint_loop_val [of 0 "c # cs" un] dec_val_FormatUint [of n] s by simp
qed

lemma not_numeric_trailing_dash: "\<not> is_numeric (u @ ''-'')"
  by (cases u) (auto simp: is_numeric_def Let_def not_digit_dash)

lemma parse_unprefixed:
  "h \<noteq> [] \<Longrightarrow> \<not> HasPrefix h ''bytes='' \<Longrightarrow> parseRangeHeader h S = Err ''format range invalide''"
  by (simp add: parseRangeHeader_def)

lemma parse_empty_spec: "parseRangeHeader ''bytes='' S = Err ''format range invalide''"
  using parseRangeHeader_bytes [of "[]" S] firstRange_single [of "[]"]
  by (simp add: rangeBounds_def HasPrefix_def HasSuffix_def)

lemma parse_suffix_not_numeric:
  assumes "CHR '','' \<notin> set t" "\<not> is_numeric t"
  shows "parseRangeHeader (''bytes=-'' @ t) S = Err ''suffix range invalide''"
proof -
  from assms(2) obtain e where "ParseInt t = Inl e" using ParseInt_not_numeric by blast
  then have "rangeBounds (CHR ''-'' # t) S = Err ''suffix range invalide''"
    by (simp add: rangeBounds_suffix)
  moreover have "firstRange (''bytes='' @ CHR ''-'' # t) = Ok (CHR ''-'' # t)"
    using assms(1) by (intro firstRange_single) simp
  ultimately show ?thesis
    using parseRangeHeader_bytes [of "CHR ''-'' # t" S] by simp
qed

lemma parse_open_not_numeric:
  assumes "CHR '','' \<notin> set t" "\<not> is_numeric t"
  shows "\<exists>m. parseRangeHeader (''bytes='' @ t @ ''-'') S = Err m"
proof -
  have first: "firstRange (''bytes='' @ t @ ''-'') = Ok (t @ ''-'')"
    using assms(1) by (intro firstRange_single) simp
  from assms(2) obtain e where pe: "ParseInt t = Inl e" using ParseInt_not_numeric by blast
  have "\<exists>m. rangeBounds (t @ ''-'') S = Err m"
  proof (cases "t \<noteq> [] \<and> hd t \<noteq> CHR ''-''")
    case True
    then show ?thesis using rangeBounds_open [of t S] pe by simp
  next
    case False
    have "\<exists>w. t @ ''-'' = CHR ''-'' # w \<and> \<not> is_numeric w"
    proof (cases t)
      case Nil
      then show ?thesis by (simp add: is_numeric_def)
    next
      case (Cons c u)
      with False have "t @ ''-'' = CHR ''-'' # (u @ ''-'')" by simp
      then show ?thesis using not_numeric_trailing_dash [of u] by blast
    qed
    then obtain w where w: "t @ ''-'' = CHR ''-'' # w" and "\<not> is_numeric w" by blast
    then obtain e' where "ParseInt w = Inl e'" using ParseInt_not_numeric by blast
    then show ?thesis unfolding w by (simp add: rangeBounds_suffix)
  qed
  then show ?thesis
    using parseRangeHeader_bytes [of "t @ ''-''" S] first by auto
qed

lemma parse_closed_cases:
  assumes "CHR '','' \<notin> set (p0 @ p1)" "CHR ''-'' \<notin> set (p0 @ p1)" "p0 \<noteq> []" "p1 \<noteq> []"
  shows "parseRangeHeader (''bytes='' @ p0 @ ''-'' @ p1) S =
     (case ParseInt p0 of
        Inl _ \<Rightarrow> Err ''start range invalide''
      | Inr a \<Rightarrow>
          (case ParseInt p1 of
             Inl _ \<Rightarrow> Err ''end range invalide''
           | Inr b \<Rightarrow>
               if a < 0 \<or> a \<ge> S \<or> b < a \<or> b \<ge> S then Err ''range hors limites''
               else Ok (Some \<lparr>range_start = a, range_end = b,
                              range_size = wrap64 (wrap64 (b - a) + 1)\<rparr>)))"
proof -
  have first: "firstRange (''bytes='' @ p0 @ ''-'' @ p1) = Ok (p0 @ ''-'' @ p1)"
    using assms(1) by (intro firstRange_single) simp
  have "rangeBounds (p0 @ ''-'' @ p1) S =
     (case ParseInt p0 of
        Inl _ \<Rightarrow> Err ''start range invalide''
      | Inr a \<Rightarrow>
          (case ParseInt p1 of
             Inl _ \<Rightarrow> Err ''end range invalide''
           | Inr b \<Rightarrow> Ok (a, b)))"
    using rangeBounds_closed [of p0 p1 S] assms by simp
  then show ?thesis
    unfolding parseRangeHeader_bytes first by (simp split: sum.splits)
qed

lemma parse_closed_not_numeric:
  assumes "CHR '','' \<notin> set (p0 @ p1)" "CHR ''-'' \<notin> set (p0 @ p1)" "p0 \<noteq> []" "p1 \<noteq> []"
    and "\<not> is_numeric p0 \<or> \<not> is_numeric p1"
  shows "\<exists>m. parseRangeHeader (''bytes='' @ p0 @ ''-'' @ p1) S = Err m"
  using assms(5) ParseInt_not_numeric [of p0] ParseInt_not_numeric [of p1]
  unfolding parse_closed_cases [OF assms(1-4)]
  by (auto split: sum.splits)

lemma FormatInt_nonneg_props:
  assumes "0 \<le> a"
  shows "FormatInt a \<noteq> []" "CHR ''-'' \<notin> set (FormatInt a)" "CHR '','' \<notin> set (FormatInt a)"
    "hd (FormatInt a) \<noteq> CHR ''-''"
proof -
  show ne: "FormatInt a \<noteq> []" using assms by (simp add: FormatInt_nonneg FormatUint_nonempty)
  show nd: "CHR ''-'' \<notin> set (FormatInt a)"
    using assms by (simp add: FormatInt_nonneg FormatUint_no_byte not_digit_dash)
  show "CHR '','' \<notin> set (FormatInt a)"
    using assms by (simp add: FormatInt_nonneg FormatUint_no_byte not_digit_comma)
  show "hd (FormatInt a) \<noteq> CHR ''-''" using ne nd hd_in_set by metis
qed

lemma ParseInt_FormatInt_val: "0 \<le> a \<Longrightarrow> ParseInt (FormatInt a) = Inr v \<Longrightarrow> v = a"
  using ParseInt_FormatUint_val [of "nat a" v] by (simp add: FormatInt_nonneg)

lemma parse_closed_out_of_bounds:
  assumes "0 \<le> a" "0 \<le> b" "a > b \<or> b \<ge> S \<or> a \<ge> S"
  shows "\<exists>m. parseRangeHeader (''bytes='' @ FormatInt a @ ''-'' @ FormatInt b) S = Err m"
proof -
  have side: "CHR '','' \<notin> set (FormatInt a @ FormatInt b)"
    "CHR ''-'' \<notin> set (FormatInt a @ FormatInt b)" "FormatInt a \<noteq> []" "FormatInt b \<noteq> []"
    using assms(1,2) by (simp_all add: FormatInt_nonneg_props)
  show ?thesis
    unfolding parse_closed_cases [OF side]
    using assms ParseInt_FormatInt_val [of a] ParseInt_FormatInt_val [of b]
    by (auto split: sum.splits)
qed

lemma parse_open_out_of_bounds:
  assumes "0 \<le> a" "a \<ge> S"
  shows "\<exists>m. parseRangeHeader (''bytes='' @ FormatInt a @ ''-'') S = Err m"
proof -
  have first: "firstRange (''bytes='' @ FormatInt a @ ''-'') = Ok (FormatInt a @ ''-'')"
    using assms(1) by (intro firstRange_single) (simp add: FormatInt_nonneg_props)
  have "rangeBounds (FormatInt a @ ''-'') S =
     (case ParseInt (FormatInt a) of
        Inl _ \<Rightarrow> Err ''start range invalide''
      | Inr n \<Rightarrow> Ok (n, wrap64 (S - 1)))"
    using assms(1) by (intro rangeBounds_open) (simp_all add: FormatInt_nonneg_props)
  then show ?thesis
    unfolding parseRangeHeader_bytes first
    using assms ParseInt_FormatInt_val [of a] by (auto split: sum.splits)
qed

lemma firstRange_Ok: "\<exists>x. firstRange h = Ok x"
  using Split_nonempty [of "TrimPrefix h ''bytes=''" "CHR '',''"]
  by (cases "Split (TrimPrefix h ''bytes='') (CHR '','')") (auto simp: firstRange_def Let_def)

lemma parse_size_zero: "\<exists>m. parseRangeHeader (''bytes='' @ r) 0 = Err m"
proof -
  obtain x where x: "firstRange (''bytes='' @ r) = Ok x"
    using firstRange_Ok by blast
  show ?thesis
    unfolding parseRangeHeader_bytes x
    using rangeBounds_no_panic [of x 0]
    by (cases "rangeBounds x 0") (auto split: prod.splits)
qed

text \<open>
  Claim C6. \<^verbatim>\<open>parseRangeHeader\<close> never panics, and it returns an error for every
  malformed or out-of-bounds header: a non-empty header without the prefix
  \<^verbatim>\<open>bytes=\<close>; the empty specification \<^verbatim>\<open>bytes=\<close>; a component that is not numeric
  (not an optional sign followed by decimal digits) in the suffix form \<^verbatim>\<open>-t\<close>, the
  open form \<^verbatim>\<open>t-\<close> or the closed form \<^verbatim>\<open>p0-p1\<close>; decimal offsets with
  \<open>start > end\<close>, \<open>end \<ge> S\<close> or \<open>start \<ge> S\<close>; and, for the size \<open>S = 0\<close>,
  every specification \<open>r\<close> after \<^verbatim>\<open>bytes=\<close>. (The handlers answer every such error
  with the status \<^verbatim>\<open>416 Range Not Satisfiable\<close>.)
\<close>

theorem malformed_range_is_error:
  "parseRangeHeader h S \<noteq> Panic
   \<and> (h \<noteq> [] \<and> \<not> HasPrefix h ''bytes='' \<longrightarrow>
        parseRangeHeader h S = Err ''format range invalide'')
   \<and> parseRangeHeader ''bytes='' S = Err ''format range invalide''
   \<and> (CHR '','' \<notin> set t \<and> \<not> is_numeric t \<longrightarrow>
        parseRangeHeader (''bytes=-'' @ t) S = Err ''suffix range invalide'')
   \<and> (CHR '','' \<notin> set t \<and> \<not> is_numeric t \<longrightarrow>
        (\<exists>m. parseRangeHeader (''bytes='' @ t @ ''-'') S = Err m))
   \<and> (CHR '','' \<notin> set (p0 @ p1) \<and> CHR ''-'' \<notin> set (p0 @ p1) \<and> p0 \<noteq> [] \<and> p1 \<noteq> []
        \<and> (\<not> is_numeric p0 \<or> \<not> is_numeric p1) \<longrightarrow>
        (\<exists>m. parseRangeHeader (''bytes='' @ p0 @ ''-'' @ p1) S = Err m))
   \<and> (0 \<le> a \<and> 0 \<le> b \<and> (a > b \<or> b \<ge> S \<or> a \<ge> S) \<longrightarrow>
        (\<exists>m. parseRangeHeader (''bytes='' @ FormatInt a @ ''-'' @ FormatInt b) S = Err m))
   \<and> (0 \<le> a \<and> a \<ge> S \<longrightarrow>
        (\<exists>m. parseRangeHeader (''bytes='' @ FormatInt a @ ''-'') S = Err m))
   \<and> (\<exists>m. parseRangeHeader (''bytes='' @ r) 0 = Err m)"
  using parseRangeHeader_no_panic [of h S] parse_unprefixed [of h S] parse_empty_spec [of S]
    parse_suffix_not_numeric [of t S] parse_open_not_numeric [of t S]
    parse_closed_not_numeric [of p0 p1 S] parse_closed_out_of_bounds [of a b S]
    parse_open_out_of_bounds [of a S] parse_size_zero [of r]
  by blast

theorem malformed_range_is_error_witness:
  "\<not> HasPrefix ''chars=0-5'' ''bytes='' \<and> \<not> is_numeric ''x'' \<and> \<not> is_numeric ''a'' \<and>
   (5::int) > 3 \<and> (5::int) \<ge> 4 \<and>
   parseRangeHeader ''chars=0-5'' 4 \<noteq> Panic \<and>
   parseRangeHeader ''chars=0-5'' 4 = Err ''format range invalide'' \<and>
   parseRangeHeader ''bytes='' 4 = Err ''format range invalide'' \<and>
   parseRangeHeader ''bytes=-x'' 4 = Err ''suffix range invalide'' \<and>
   (\<exists>m. parseRangeHeader ''bytes=x-'' 4 = Err m) \<and>
   (\<exists>m. parseRangeHeader ''bytes=a-5'' 4 = Err m) \<and>
   (\<exists>m. parseRangeHeader ''bytes=5-3'' 4 = Err m) \<and>
   (\<exists>m. parseRangeHeader ''bytes=5-'' 4 = Err m) \<and>
   (\<exists>m. parseRangeHeader ''bytes=0-0'' 0 = Err m)"
proof -
  have n: "\<not> is_numeric ''x''" "\<not> is_numeric ''a''" "\<not> HasPrefix ''chars=0-5'' ''bytes=''"
    by (simp_all add: is_numeric_def is_digit_def HasPrefix_def)
  have f: "FormatInt 5 = ''5''" "FormatInt 3 = ''3''" by (simp_all add: format_eval)
  show ?thesis
    using malformed_range_is_error [where h = "''chars=0-5''" and S = 4 and t = "''x''"
        and ?p0.0 = "''a''" and ?p1.0 = "''5''" and a = 5 and b = 3 and r = "''0-0''"] n f
    by simp
qed






section \<open>Properties of the handlers\<close>

lemma getDownloadBackup_resolved:
  "backup_resolves E ts c token path f st \<Longrightarrow>
   getDownloadBackup E ts c = (sendBackup E f st c, insert (UniqueId token) ts)"
  by (auto simp: backup_resolves_def getDownloadBackup_def IsUniqueRequest_def)

lemma getDownloadFile_resolved:
  "file_resolves E ts c token s f st \<Longrightarrow>
   getDownloadFile E ts c = (sendFile E f st c, insert (UniqueId token) ts)"
  by (auto simp: file_resolves_def getDownloadFile_def IsUniqueRequest_def)

lemma FormatInt_nonempty: "FormatInt i \<noteq> []"
  by (simp add: FormatInt_def FormatUint_nonempty)

lemma sendBackup_bad_range:
  "parseRangeHeader (range_header c) (Size st) = Err m \<Longrightarrow>
   sendBackup E f st c = rangeNotSatisfiable (Size st) c"
  by (simp add: sendBackup_def rangeNotSatisfiable_def AbortWithStatus_def Header_def)

lemma sendFile_bad_range:
  "parseRangeHeader (range_header c) (Size st) = Err m \<Longrightarrow>
   sendFile E f st c = rangeNotSatisfiable (Size st) c"
  by (simp add: sendFile_def rangeNotSatisfiable_def AbortWithStatus_def Header_def)

lemma parse_Ok_bounds:
  assumes "parseRangeHeader h S = Ok (Some r)"
  shows "0 \<le> range_start r" "range_start r \<le> range_end r" "range_end r < S"
    "range_size r = wrap64 (wrap64 (range_end r - range_start r) + 1)"
  using assms
  by (auto simp: parseRangeHeader_def split: if_splits outcome.splits prod.splits)

lemma parse_Ok_size:
  assumes "parseRangeHeader h S = Ok (Some r)" "is_int64 S"
  shows "range_size r = range_end r - range_start r + 1"
proof -
  note b = parse_Ok_bounds [OF assms(1)]
  have "wrap64 (range_end r - range_start r) = range_end r - range_start r"
    using b assms(2) by (intro wrap64_id) (simp add: is_int64_def)
  moreover have "wrap64 (range_end r - range_start r + 1) = range_end r - range_start r + 1"
    using b assms(2) by (intro wrap64_id) (simp add: is_int64_def)
  ultimately show ?thesis using b(4) by simp
qed

lemma Write_all:
  "peer_accepts c = None \<Longrightarrow> Write data c = (c\<lparr>body := body c @ data\<rparr>, None)"
  by (simp add: Write_def)

lemma sendBackup_partial:
  assumes p: "parseRangeHeader (range_header c) (Size st) = Ok (Some r)"
    and s: "seek_error f = None" and w: "peer_accepts c = None"
    and len: "int (length (contents f)) = Size st" and i: "is_int64 (Size st)"
  shows "partialContent r (Size st) f c (sendBackup E f st c)"
proof -
  note b = parse_Ok_bounds [OF p] and sz = parse_Ok_size [OF p i]
  have seek: "Seek f (range_start r) = Inr (f\<lparr>offset := nat (range_start r)\<rparr>)"
    using s b(1) by (simp add: Seek_def)
  have n: "nat (range_start r) + nat (range_size r) \<le> length (contents f)"
    using b sz len by linarith
  have l: "length (take (nat (range_size r)) (drop (nat (range_start r)) (contents f)))
             = nat (range_size r)"
    using n by simp
  show ?thesis
    unfolding partialContent_def sendBackup_def
    using p seek w l
    by (simp add: Let_def CopyN_def Write_def Header_def Status_def FormatInt_nonempty
        Debug_def split: prod.splits)
qed

lemma sendFile_partial:
  assumes p: "parseRangeHeader (range_header c) (Size st) = Ok (Some r)"
    and s: "seek_error f = None" and w: "peer_accepts c = None"
    and len: "int (length (contents f)) = Size st" and i: "is_int64 (Size st)"
  shows "partialContent r (Size st) f c (sendFile E f st c)"
proof -
  note b = parse_Ok_bounds [OF p] and sz = parse_Ok_size [OF p i]
  have seek: "Seek f (range_start r) = Inr (f\<lparr>offset := nat (range_start r)\<rparr>)"
    using s b(1) by (simp add: Seek_def)
  have n: "nat (range_start r) + nat (range_size r) \<le> length (contents f)"
    using b sz len by linarith
  have l: "length (take (nat (range_size r)) (drop (nat (range_start r)) (contents f)))
             = nat (range_size r)"
    using n by simp
  show ?thesis
    unfolding partialContent_def sendFile_def
    using p seek w l
    by (simp add: Let_def CopyN_def Write_def Header_def Status_def FormatInt_nonempty
        Debug_def split: prod.splits)
qed

lemma Write_status_headers:
  "status (fst (Write d c)) = status c" "headers (fst (Write d c)) = headers c"
  by (auto simp: Write_def Let_def split: option.splits)

lemma CopyN_status_headers:
  "CopyN c f n = (c', e) \<Longrightarrow> status c' = status c \<and> headers c' = headers c"
  using Write_status_headers [of "take (nat n) (drop (offset f) (contents f))" c]
  by (auto simp: CopyN_def Let_def split: prod.splits)

lemma sendBackup_partial_headers:
  assumes p: "parseRangeHeader (range_header c) (Size st) = Ok (Some r)"
    and s: "seek_error f = None"
  shows "partialHeaders r (Size st) (sendBackup E f st c)"
proof -
  note b = parse_Ok_bounds [OF p]
  have seek: "Seek f (range_start r) = Inr (f\<lparr>offset := nat (range_start r)\<rparr>)"
    using s b(1) by (simp add: Seek_def)
  show ?thesis
    unfolding partialHeaders_def sendBackup_def
    using p seek
    by (auto simp: Let_def Header_def Status_def FormatInt_nonempty Debug_def
        split: prod.splits dest!: CopyN_status_headers)
qed

lemma sendFile_partial_headers:
  assumes p: "parseRangeHeader (range_header c) (Size st) = Ok (Some r)"
    and s: "seek_error f = None"
  shows "partialHeaders r (Size st) (sendFile E f st c)"
proof -
  note b = parse_Ok_bounds [OF p]
  have seek: "Seek f (range_start r) = Inr (f\<lparr>offset := nat (range_start r)\<rparr>)"
    using s b(1) by (simp add: Seek_def)
  show ?thesis
    unfolding partialHeaders_def sendFile_def
    using p seek
    by (auto simp: Let_def Header_def Status_def FormatInt_nonempty Debug_def
        split: prod.splits dest!: CopyN_status_headers)
qed

lemma example_backup_resolves:
  "backup_resolves (example_env n False) {} (request ''tok'' rng)
     \<lparr>ServerUuid = ''srv'', UniqueId = ''u1'', BackupUuid = ''bk''\<rparr>
     ''/backups/bk.tar.gz'' (example_file n) (example_info n False)"
  by (simp add: backup_resolves_def example_env_def request_def)

lemma example_file_resolves:
  "file_resolves (example_env n False) {} (request ''tok'' rng)
     \<lparr>ServerUuid = ''srv'', UniqueId = ''u1'', FilePath = ''/world''\<rparr>
     \<lparr>Filesystem_File =
        (\<lambda>p. if p = ''/world'' then Inr (example_file n, example_info n False)
              else Inl ErrNotExist)\<rparr>
     (example_file n) (example_info n False)"
  by (simp add: file_resolves_def example_env_def request_def example_info_def)

lemmas handler_eval = example_env_def example_info_def example_file_def request_def
  getDownloadBackup_def getDownloadFile_def getDownloadBackupHead_def getDownloadFileHead_def
  sendBackup_def sendFile_def IsUniqueRequest_def notFound_def AbortWithStatusJSON_def
  AbortWithStatus_def Header_def Status_def Seek_def CopyN_def WriteTo_def Write_def Debug_def
  StatusOK_def StatusPartialContent_def StatusNotFound_def
  StatusRequestedRangeNotSatisfiable_def

lemma parse_example_0_99:
  "parseRangeHeader ''bytes=0-99'' 1000 =
     Ok (Some \<lparr>range_start = 0, range_end = 99, range_size = 100\<rparr>)"
  by (simp add: parse_eval)

subsection \<open>The token ledger\<close>

lemma getDownloadBackup_ledger:
  "ParseBackupToken E (token_query c) = Inr token \<Longrightarrow>
   snd (getDownloadBackup E ts c) =
     (case manager_Get E (ServerUuid token) of
        None \<Rightarrow> ts
      | Some _ \<Rightarrow> insert (UniqueId token) ts)"
  by (simp add: getDownloadBackup_def IsUniqueRequest_def
      split: option.splits sum.splits prod.splits)

lemma getDownloadFile_ledger:
  "ParseFileToken E (token_query c) = Inr token \<Longrightarrow>
   snd (getDownloadFile E ts c) =
     (case manager_Get E (ServerUuid token) of
        None \<Rightarrow> ts
      | Some _ \<Rightarrow> insert (UniqueId token) ts)"
  by (simp add: getDownloadFile_def IsUniqueRequest_def
      split: option.splits sum.splits prod.splits)





lemma notFound_response:
  "status (notFound c) = 404"
  "body (notFound c) = body c @ json_error ''The requested resource was not found on this server.''"
  "aborted (notFound c)"
  by (simp_all add: notFound_def AbortWithStatusJSON_def StatusNotFound_def)

lemma head_ledger:
  "snd (getDownloadBackupHead E ts c) = ts" "snd (getDownloadFileHead E ts c) = ts"
  by (auto simp: getDownloadBackupHead_def getDownloadFileHead_def
      split: sum.splits option.splits prod.splits)

lemma head_response:
  "fst (getDownloadBackupHead E ts c) = fst (getDownloadBackupHead E ts' c)"
  "fst (getDownloadFileHead E ts c) = fst (getDownloadFileHead E ts' c)"
  by (auto simp: getDownloadBackupHead_def getDownloadFileHead_def
      split: sum.splits option.splits prod.splits)

lemma repeat_request_frame:
  assumes "\<And>ts. snd (h ts c) = ts" "\<And>ts ts'. fst (h ts c) = fst (h ts' c)"
  shows "repeat_request h c n ts = (replicate n (fst (h ts0 c)), ts)"
proof (induction n)
  case 0
  then show ?case by simp
next
  case (Suc n)
  have "h ts c = (fst (h ts0 c), ts)"
    using assms(1) [of ts] assms(2) [of ts ts0] by (cases "h ts c") simp
  with Suc show ?case by simp
qed

lemma head_backup_ok:
  assumes "backup_resolves E ts c bt path f st"
  shows "status (fst (getDownloadBackupHead E ts' c)) = StatusOK"
    "headers (fst (getDownloadBackupHead E ts' c)) ''Content-Length'' = Some (FormatInt (Size st))"
    "headers (fst (getDownloadBackupHead E ts' c)) ''Accept-Ranges'' = Some ''bytes''"
    "body (fst (getDownloadBackupHead E ts' c)) = body c"
  using assms
  by (auto simp: backup_resolves_def getDownloadBackupHead_def Header_def Status_def
      FormatInt_nonempty)

lemma head_file_ok:
  assumes "file_resolves E ts c ft s f st"
  shows "status (fst (getDownloadFileHead E ts' c)) = StatusOK"
    "headers (fst (getDownloadFileHead E ts' c)) ''Content-Length'' = Some (FormatInt (Size st))"
    "headers (fst (getDownloadFileHead E ts' c)) ''Accept-Ranges'' = Some ''bytes''"
    "body (fst (getDownloadFileHead E ts' c)) = body c"
  using assms
  by (auto simp: file_resolves_def getDownloadFileHead_def Header_def Status_def
      FormatInt_nonempty)




subsection \<open>The claims about the handlers\<close>




text \<open>
  Claim C2 says that a \<^verbatim>\<open>GET\<close> of either kind whose resolved metadata marks a
  directory returns the not-found response. \<^verbatim>\<open>getDownloadBackup\<close> never reads
  \<^verbatim>\<open>IsDir\<close>: when \<^verbatim>\<open>LocateLocal\<close> returns metadata flagged as a directory and the open
  succeeds, the handler answers 200, or 206 for a range.
\<close>

theorem backup_directory_counterexample:
  "LocateLocal (example_env 10 True) ''bk'' =
     Inr (''/backups/bk.tar.gz'', example_info 10 True) \<and>
   IsDir (example_info 10 True) \<and>
   status (fst (getDownloadBackup (example_env 10 True) {} (request ''tok'' ''''))) = StatusOK \<and>
   status (fst (getDownloadBackup (example_env 10 True) {} (request ''tok'' ''bytes=0-4'')))
     = StatusPartialContent \<and>
   fst (getDownloadBackup (example_env 10 True) {} (request ''tok'' ''''))
     \<noteq> notFound (request ''tok'' '''')"
proof -
  have a: "status (fst (getDownloadBackup (example_env 10 True) {} (request ''tok'' '''')))
             = 200"
    by (simp add: handler_eval parse_eval)
  have b: "status (fst (getDownloadBackup (example_env 10 True) {}
             (request ''tok'' ''bytes=0-4''))) = 206"
    by (simp add: handler_eval parse_eval)
  have c: "status (notFound (request ''tok'' '''')) = 404" by (rule notFound_response)
  have d: "fst (getDownloadBackup (example_env 10 True) {} (request ''tok'' ''''))
     \<noteq> notFound (request ''tok'' '''')"
    using a c by auto
  show ?thesis
    using a b d
    by (simp add: example_env_def example_info_def StatusOK_def StatusPartialContent_def)
qed

text \<open>
  Claim C2, amended. For every \<^verbatim>\<open>GET\<close> of a file whose token parses, whose server is
  found and whose metadata marks a directory, the response is \<open>notFound\<close>: status 404,
  never 200 nor 206. (\<^verbatim>\<open>getDownloadBackup\<close> has no such check.)
\<close>

theorem file_directory_not_found:
  assumes "ParseFileToken E (token_query c) = Inr ft"
    and "manager_Get E (ServerUuid ft) = Some s"
    and "Filesystem_File s (FilePath ft) = Inr (f, st)"
    and "IsDir st"
  shows "fst (getDownloadFile E ts c) = notFound c
       \<and> status (fst (getDownloadFile E ts c)) = StatusNotFound
       \<and> status (fst (getDownloadFile E ts c)) \<noteq> StatusOK
       \<and> status (fst (getDownloadFile E ts c)) \<noteq> StatusPartialContent"
proof -
  have "fst (getDownloadFile E ts c) = notFound c"
    using assms by (simp add: getDownloadFile_def IsUniqueRequest_def)
  then show ?thesis
    by (simp add: notFound_def AbortWithStatusJSON_def StatusNotFound_def StatusOK_def
        StatusPartialContent_def)
qed

theorem file_directory_not_found_witness:
  "IsDir (example_info 10 True) \<and>
   fst (getDownloadFile (example_env 10 True) {} (request ''tok'' ''''))
     = notFound (request ''tok'' '''') \<and>
   status (fst (getDownloadFile (example_env 10 True) {} (request ''tok'' ''''))) = 404"
proof -
  have h: "ParseFileToken (example_env 10 True) (token_query (request ''tok'' ''''))
      = Inr \<lparr>ServerUuid = ''srv'', UniqueId = ''u1'', FilePath = ''/world''\<rparr>"
    "manager_Get (example_env 10 True)
       (ServerUuid \<lparr>ServerUuid = ''srv'', UniqueId = ''u1'', FilePath = ''/world''\<rparr>)
      = Some \<lparr>Filesystem_File =
          (\<lambda>p. if p = ''/world'' then Inr (example_file 10, example_info 10 True)
                else Inl ErrNotExist)\<rparr>"
    "Filesystem_File \<lparr>Filesystem_File =
          (\<lambda>p. if p = ''/world'' then Inr (example_file 10, example_info 10 True)
                else Inl ErrNotExist)\<rparr>
       (FilePath \<lparr>ServerUuid = ''srv'', UniqueId = ''u1'', FilePath = ''/world''\<rparr>)
      = Inr (example_file 10, example_info 10 True)"
    "IsDir (example_info 10 True)"
    by (simp_all add: example_env_def request_def example_info_def)
  from file_directory_not_found [OF h, of "{}"]
  have a: "fst (getDownloadFile (example_env 10 True) {} (request ''tok'' ''''))
             = notFound (request ''tok'' '''')"
    and b: "status (fst (getDownloadFile (example_env 10 True) {} (request ''tok'' '''')))
             = StatusNotFound"
    by blast+
  show ?thesis
  proof (intro conjI)
    show "IsDir (example_info 10 True)" using h(4) by simp
    show "fst (getDownloadFile (example_env 10 True) {} (request ''tok'' ''''))
             = notFound (request ''tok'' '''')" by (rule a)
    show "status (fst (getDownloadFile (example_env 10 True) {} (request ''tok'' ''''))) = 404"
      using b by (simp only: StatusNotFound_def)
  qed
qed

text \<open>
  Claim C3. In both \<^verbatim>\<open>GET\<close> handlers the token is checked and marked in the first
  guard: whenever the token parses and the server lookup succeeds, the ledger after the
  request is the ledger before it with the token's marker added, whatever the rest of
  the request does (backup or file not found, directory, storage error, bad range); when
  the server lookup fails, the ledger is unchanged.
\<close>

theorem token_consumed_in_guard:
  "(ParseBackupToken E (token_query c) = Inr bt \<and> manager_Get E (ServerUuid bt) = Some s \<longrightarrow>
      snd (getDownloadBackup E ts c) = insert (UniqueId bt) ts)
   \<and> (ParseBackupToken E (token_query c) = Inr bt \<and> manager_Get E (ServerUuid bt) = None \<longrightarrow>
      snd (getDownloadBackup E ts c) = ts)
   \<and> (ParseFileToken E (token_query c) = Inr ft \<and> manager_Get E (ServerUuid ft) = Some s \<longrightarrow>
      snd (getDownloadFile E ts c) = insert (UniqueId ft) ts)
   \<and> (ParseFileToken E (token_query c) = Inr ft \<and> manager_Get E (ServerUuid ft) = None \<longrightarrow>
      snd (getDownloadFile E ts c) = ts)"
  by (auto simp: getDownloadBackup_ledger getDownloadFile_ledger)

theorem token_consumed_in_guard_witness:
  "snd (getDownloadFile (example_env 10 True) {} (request ''tok'' '''')) = {''u1''} \<and>
   status (fst (getDownloadFile (example_env 10 True) {} (request ''tok'' ''''))) = 404 \<and>
   snd (getDownloadBackup (example_env 10 False) {} (request ''tok'' ''bytes=5-3'')) = {''u1''} \<and>
   status (fst (getDownloadBackup (example_env 10 False) {} (request ''tok'' ''bytes=5-3''))) = 416 \<and>
   snd (getDownloadBackup (example_env 10 False) {} (request ''tok2'' '''')) = {} \<and>
   snd (getDownloadFile (example_env 10 False) {} (request ''tok2'' '''')) = {}"
proof -
  have a: "snd (getDownloadFile (example_env 10 True) {} (request ''tok'' '''')) = {''u1''}"
    using token_consumed_in_guard [of "example_env 10 True" "request ''tok'' ''''" _ _ "{}"
        "\<lparr>ServerUuid = ''srv'', UniqueId = ''u1'', FilePath = ''/world''\<rparr>"]
    by (simp add: example_env_def request_def)
  have b: "snd (getDownloadBackup (example_env 10 False) {} (request ''tok'' ''bytes=5-3''))
             = {''u1''}"
    using token_consumed_in_guard [of "example_env 10 False" "request ''tok'' ''bytes=5-3''"
        "\<lparr>ServerUuid = ''srv'', UniqueId = ''u1'', BackupUuid = ''bk''\<rparr>" _ "{}"]
    by (simp add: example_env_def request_def)
  have c: "snd (getDownloadBackup (example_env 10 False) {} (request ''tok2'' '''')) = {}"
    "snd (getDownloadFile (example_env 10 False) {} (request ''tok2'' '''')) = {}"
    using token_consumed_in_guard [of "example_env 10 False" "request ''tok2'' ''''"
        "\<lparr>ServerUuid = ''gone'', UniqueId = ''u2'', BackupUuid = ''bk''\<rparr>" _ "{}"
        "\<lparr>ServerUuid = ''gone'', UniqueId = ''u2'', FilePath = ''/world''\<rparr>"]
    by (simp_all add: example_env_def request_def)
  have d: "status (fst (getDownloadFile (example_env 10 True) {} (request ''tok'' ''''))) = 404"
    by (simp add: handler_eval)
  have e: "status (fst (getDownloadBackup (example_env 10 False) {}
             (request ''tok'' ''bytes=5-3''))) = 416"
    by (simp add: handler_eval parse_eval)
  show ?thesis using a b c d e by simp
qed

text \<open>
  Claim C8. When a \<^verbatim>\<open>GET\<close> of either kind reaches the parsing of the range,
  \<^verbatim>\<open>parseRangeHeader\<close> returns the range \<open>r\<close> and the seek on the handle succeeds, the
  response has the status \<^verbatim>\<open>206\<close>, \<^verbatim>\<open>Content-Length\<close> set to the size of the range and
  \<^verbatim>\<open>Content-Range\<close> set to \<^verbatim>\<open>bytes <start>-<end>/<total>\<close>. When moreover the client
  stays connected and the handle holds the number of bytes its metadata announces (an
  \<^verbatim>\<open>int64\<close>), the body is exactly the \<open>range_size r\<close> bytes of the resource from the
  offset \<open>range_start r\<close>.
\<close>

theorem range_request_partial_content:
  "(backup_resolves E ts c bt path f st \<and>
      parseRangeHeader (range_header c) (Size st) = Ok (Some r) \<and> seek_error f = None \<longrightarrow>
      partialHeaders r (Size st) (fst (getDownloadBackup E ts c)))
   \<and> (backup_resolves E ts c bt path f st \<and>
      parseRangeHeader (range_header c) (Size st) = Ok (Some r) \<and> seek_error f = None \<and>
      peer_accepts c = None \<and> int (length (contents f)) = Size st \<and> is_int64 (Size st) \<longrightarrow>
      partialContent r (Size st) f c (fst (getDownloadBackup E ts c)))
   \<and> (file_resolves E ts c ft s f st \<and>
      parseRangeHeader (range_header c) (Size st) = Ok (Some r) \<and> seek_error f = None \<longrightarrow>
      partialHeaders r (Size st) (fst (getDownloadFile E ts c)))
   \<and> (file_resolves E ts c ft s f st \<and>
      parseRangeHeader (range_header c) (Size st) = Ok (Some r) \<and> seek_error f = None \<and>
      peer_accepts c = None \<and> int (length (contents f)) = Size st \<and> is_int64 (Size st) \<longrightarrow>
      partialContent r (Size st) f c (fst (getDownloadFile E ts c)))"
  by (auto simp: getDownloadBackup_resolved getDownloadFile_resolved
      sendBackup_partial sendFile_partial sendBackup_partial_headers sendFile_partial_headers)

theorem range_request_partial_content_witness:
  "backup_resolves (example_env 1000 False) {} (request ''tok'' ''bytes=0-99'')
     \<lparr>ServerUuid = ''srv'', UniqueId = ''u1'', BackupUuid = ''bk''\<rparr>
     ''/backups/bk.tar.gz'' (example_file 1000) (example_info 1000 False) \<and>
   parseRangeHeader ''bytes=0-99'' 1000 =
     Ok (Some \<lparr>range_start = 0, range_end = 99, range_size = 100\<rparr>) \<and>
   status (fst (getDownloadBackup (example_env 1000 False) {} (request ''tok'' ''bytes=0-99'')))
     = 206 \<and>
   headers (fst (getDownloadBackup (example_env 1000 False) {} (request ''tok'' ''bytes=0-99'')))
     ''Content-Range'' = Some ''bytes 0-99/1000'' \<and>
   headers (fst (getDownloadBackup (example_env 1000 False) {} (request ''tok'' ''bytes=0-99'')))
     ''Content-Length'' = Some ''100'' \<and>
   body (fst (getDownloadBackup (example_env 1000 False) {} (request ''tok'' ''bytes=0-99'')))
     = replicate 100 (CHR ''x'') \<and>
   status (fst (getDownloadFile (example_env 1000 False) {} (request ''tok'' ''bytes=0-99'')))
     = 206 \<and>
   headers (fst (getDownloadFile (example_env 1000 False) {} (request ''tok'' ''bytes=0-99'')))
     ''Content-Range'' = Some ''bytes 0-99/1000'' \<and>
   headers (fst (getDownloadFile (example_env 1000 False) {} (request ''tok'' ''bytes=0-99'')))
     ''Content-Length'' = Some ''100'' \<and>
   body (fst (getDownloadFile (example_env 1000 False) {} (request ''tok'' ''bytes=0-99'')))
     = replicate 100 (CHR ''x'')"
proof -
  let ?c = "request ''tok'' ''bytes=0-99''"
  let ?r = "\<lparr>range_start = 0, range_end = 99, range_size = 100\<rparr>"
  have rb: "backup_resolves (example_env 1000 False) {} ?c
     \<lparr>ServerUuid = ''srv'', UniqueId = ''u1'', BackupUuid = ''bk''\<rparr>
     ''/backups/bk.tar.gz'' (example_file 1000) (example_info 1000 False)"
    using example_backup_resolves [of 1000 "''bytes=0-99''"] by simp
  have rf: "file_resolves (example_env 1000 False) {} ?c
     \<lparr>ServerUuid = ''srv'', UniqueId = ''u1'', FilePath = ''/world''\<rparr>
     \<lparr>Filesystem_File =
        (\<lambda>p. if p = ''/world'' then Inr (example_file 1000, example_info 1000 False)
              else Inl ErrNotExist)\<rparr>
     (example_file 1000) (example_info 1000 False)"
    using example_file_resolves [of 1000 "''bytes=0-99''"] by simp
  have p: "parseRangeHeader (range_header ?c) (Size (example_info 1000 False)) = Ok (Some ?r)"
    using parse_example_0_99 by (simp add: request_def example_info_def)
  have side: "seek_error (example_file 1000) = None" "peer_accepts ?c = None"
    "int (length (contents (example_file 1000))) = Size (example_info 1000 False)"
    "is_int64 (Size (example_info 1000 False))"
    by (simp_all add: example_file_def request_def example_info_def is_int64_def)
  have f: "FormatInt 0 = ''0''" "FormatInt 99 = ''99''" "FormatInt 100 = ''100''"
    "FormatInt 1000 = ''1000''"
    by (simp_all add: format_eval)
  have pb: "partialContent ?r (Size (example_info 1000 False)) (example_file 1000) ?c
      (fst (getDownloadBackup (example_env 1000 False) {} ?c))"
    using range_request_partial_content [of "example_env 1000 False" "{}" ?c _ _
        "example_file 1000" "example_info 1000 False" ?r] rb p side
    by blast
  have pf: "partialContent ?r (Size (example_info 1000 False)) (example_file 1000) ?c
      (fst (getDownloadFile (example_env 1000 False) {} ?c))"
    using range_request_partial_content [of "example_env 1000 False" "{}" ?c _ _
        "example_file 1000" "example_info 1000 False" ?r] rf p side
    by blast
  have bd: "body ?c = []" "contents (example_file 1000) = replicate 1000 (CHR ''x'')"
    "Size (example_info 1000 False) = 1000"
    by (simp_all add: request_def example_file_def example_info_def)
  show ?thesis
    using pb pf rb parse_example_0_99
    unfolding partialContent_def bd
    by (simp add: f StatusPartialContent_def)
qed

text \<open>
  Claim C9. When a \<^verbatim>\<open>GET\<close> of either kind reaches the parsing of the range and
  \<^verbatim>\<open>parseRangeHeader\<close> returns an error, the response is the incoming one with the
  status \<^verbatim>\<open>416\<close>, the header \<^verbatim>\<open>Content-Range: bytes */<total>\<close> carrying the full
  size of the resource, and the abort flag: no other header is set and nothing is written
  to the body.
\<close>

theorem bad_range_not_satisfiable:
  "(backup_resolves E ts c bt path f st \<and>
      parseRangeHeader (range_header c) (Size st) = Err m \<longrightarrow>
      fst (getDownloadBackup E ts c) = rangeNotSatisfiable (Size st) c)
   \<and> (file_resolves E ts c ft s f st \<and>
      parseRangeHeader (range_header c) (Size st) = Err m \<longrightarrow>
      fst (getDownloadFile E ts c) = rangeNotSatisfiable (Size st) c)
   \<and> status (rangeNotSatisfiable tot c) = StatusRequestedRangeNotSatisfiable
   \<and> body (rangeNotSatisfiable tot c) = body c
   \<and> headers (rangeNotSatisfiable tot c) ''Content-Range'' = Some (''bytes */'' @ FormatInt tot)"
  by (auto simp: getDownloadBackup_resolved getDownloadFile_resolved sendBackup_bad_range
      sendFile_bad_range rangeNotSatisfiable_def)

theorem bad_range_not_satisfiable_witness:
  "status (fst (getDownloadBackup (example_env 10 False) {} (request ''tok'' ''bytes=5-3''))) = 416 \<and>
   body (fst (getDownloadBackup (example_env 10 False) {} (request ''tok'' ''bytes=5-3''))) = [] \<and>
   headers (fst (getDownloadBackup (example_env 10 False) {} (request ''tok'' ''bytes=5-3'')))
     ''Content-Range'' = Some ''bytes */10'' \<and>
   status (fst (getDownloadFile (example_env 10 False) {} (request ''tok'' ''bytes=5-3''))) = 416 \<and>
   body (fst (getDownloadFile (example_env 10 False) {} (request ''tok'' ''bytes=5-3''))) = [] \<and>
   headers (fst (getDownloadFile (example_env 10 False) {} (request ''tok'' ''bytes=5-3'')))
     ''Content-Range'' = Some ''bytes */10''"
proof -
  let ?c = "request ''tok'' ''bytes=5-3''"
  have p: "parseRangeHeader (range_header ?c) (Size (example_info 10 False))
             = Err ''range hors limites''"
    by (simp add: request_def example_info_def parse_eval)
  have g: "fst (getDownloadBackup (example_env 10 False) {} ?c)
             = rangeNotSatisfiable (Size (example_info 10 False)) ?c"
    "fst (getDownloadFile (example_env 10 False) {} ?c)
             = rangeNotSatisfiable (Size (example_info 10 False)) ?c"
    using bad_range_not_satisfiable [of "example_env 10 False" "{}" ?c _ _
        "example_file 10" "example_info 10 False" "''range hors limites''"]
      example_backup_resolves [of 10 "''bytes=5-3''"]
      example_file_resolves [of 10 "''bytes=5-3''"] p
    by auto
  have f: "FormatInt 10 = ''10''" by (simp add: format_eval)
  show ?thesis
    unfolding g
    by (simp add: rangeNotSatisfiable_def request_def example_info_def f
        StatusRequestedRangeNotSatisfiable_def)
qed

text \<open>
  Claim C10. A \<^verbatim>\<open>HEAD\<close> of either kind leaves the ledger of consumed tokens as it was
  and its response does not depend on the ledger. So \<open>n\<close> repeated \<^verbatim>\<open>HEAD\<close> requests
  give \<open>n\<close> times the same response and the same ledger, and a \<^verbatim>\<open>GET\<close> after them
  behaves as without them. When a \<^verbatim>\<open>GET\<close> with this token would reach the streaming
  step, each \<^verbatim>\<open>HEAD\<close> answers 200 with the size and \<^verbatim>\<open>Accept-Ranges\<close> headers and an
  untouched body, and the \<^verbatim>\<open>GET\<close> after the \<^verbatim>\<open>HEAD\<close>s does reach that step.
\<close>

theorem head_never_consumes:
  "snd (getDownloadBackupHead E ts c) = ts
   \<and> snd (getDownloadFileHead E ts c) = ts
   \<and> repeat_request (getDownloadBackupHead E) c n ts =
        (replicate n (fst (getDownloadBackupHead E ts' c)), ts)
   \<and> repeat_request (getDownloadFileHead E) c n ts =
        (replicate n (fst (getDownloadFileHead E ts' c)), ts)
   \<and> getDownloadBackup E (snd (repeat_request (getDownloadBackupHead E) c n ts)) c' =
        getDownloadBackup E ts c'
   \<and> getDownloadFile E (snd (repeat_request (getDownloadFileHead E) c n ts)) c' =
        getDownloadFile E ts c'
   \<and> (backup_resolves E ts c bt path f st \<longrightarrow>
        status (fst (getDownloadBackupHead E ts' c)) = StatusOK \<and>
        headers (fst (getDownloadBackupHead E ts' c)) ''Content-Length''
          = Some (FormatInt (Size st)) \<and>
        headers (fst (getDownloadBackupHead E ts' c)) ''Accept-Ranges'' = Some ''bytes'' \<and>
        body (fst (getDownloadBackupHead E ts' c)) = body c \<and>
        getDownloadBackup E (snd (repeat_request (getDownloadBackupHead E) c n ts)) c =
          (sendBackup E f st c, insert (UniqueId bt) ts))
   \<and> (file_resolves E ts c ft s f st \<longrightarrow>
        status (fst (getDownloadFileHead E ts' c)) = StatusOK \<and>
        headers (fst (getDownloadFileHead E ts' c)) ''Content-Length''
          = Some (FormatInt (Size st)) \<and>
        headers (fst (getDownloadFileHead E ts' c)) ''Accept-Ranges'' = Some ''bytes'' \<and>
        body (fst (getDownloadFileHead E ts' c)) = body c \<and>
        getDownloadFile E (snd (repeat_request (getDownloadFileHead E) c n ts)) c =
          (sendFile E f st c, insert (UniqueId ft) ts))"
proof -
  have rb: "repeat_request (getDownloadBackupHead E) c n ts =
        (replicate n (fst (getDownloadBackupHead E ts' c)), ts)"
    by (rule repeat_request_frame) (auto simp: head_ledger intro: head_response)
  have rf: "repeat_request (getDownloadFileHead E) c n ts =
        (replicate n (fst (getDownloadFileHead E ts' c)), ts)"
    by (rule repeat_request_frame) (auto simp: head_ledger intro: head_response)
  show ?thesis
    unfolding rb rf
    by (auto simp: head_ledger head_backup_ok head_file_ok getDownloadBackup_resolved
        getDownloadFile_resolved)
qed

theorem head_never_consumes_witness:
  "repeat_request (getDownloadBackupHead (example_env 10 False)) (request ''tok'' '''') 3 {} =
     (replicate 3 (fst (getDownloadBackupHead (example_env 10 False) {} (request ''tok'' ''''))), {}) \<and>
   status (fst (getDownloadBackupHead (example_env 10 False) {} (request ''tok'' ''''))) = 200 \<and>
   headers (fst (getDownloadBackupHead (example_env 10 False) {} (request ''tok'' '''')))
     ''Content-Length'' = Some ''10'' \<and>
   body (fst (getDownloadBackupHead (example_env 10 False) {} (request ''tok'' ''''))) = [] \<and>
   snd (getDownloadBackup (example_env 10 False)
          (snd (repeat_request (getDownloadBackupHead (example_env 10 False))
                  (request ''tok'' '''') 3 {}))
          (request ''tok'' '''')) = {''u1''} \<and>
   status (fst (getDownloadBackup (example_env 10 False)
          (snd (repeat_request (getDownloadBackupHead (example_env 10 False))
                  (request ''tok'' '''') 3 {}))
          (request ''tok'' ''''))) = 200 \<and>
   repeat_request (getDownloadFileHead (example_env 10 False)) (request ''tok'' '''') 3 {} =
     (replicate 3 (fst (getDownloadFileHead (example_env 10 False) {} (request ''tok'' ''''))), {}) \<and>
   status (fst (getDownloadFileHead (example_env 10 False) {} (request ''tok'' ''''))) = 200 \<and>
   status (fst (getDownloadFile (example_env 10 False)
          (snd (repeat_request (getDownloadFileHead (example_env 10 False))
                  (request ''tok'' '''') 3 {}))
          (request ''tok'' ''''))) = 200"
proof -
  let ?E = "example_env 10 False" and ?c = "request ''tok'' ''''"
  note h = head_never_consumes [where E = ?E and ts = "{}" and c = ?c and n = 3
      and ts' = "{}" and c' = ?c and f = "example_file 10" and st = "example_info 10 False"
      and bt = "\<lparr>ServerUuid = ''srv'', UniqueId = ''u1'', BackupUuid = ''bk''\<rparr>"
      and path = "''/backups/bk.tar.gz''"
      and ft = "\<lparr>ServerUuid = ''srv'', UniqueId = ''u1'', FilePath = ''/world''\<rparr>"
      and s = "\<lparr>Filesystem_File =
        (\<lambda>p. if p = ''/world'' then Inr (example_file 10, example_info 10 False)
              else Inl ErrNotExist)\<rparr>"]
  have f: "FormatInt (Size (example_info 10 False)) = ''10''"
    by (simp add: example_info_def format_eval)
  have sb: "status (sendBackup ?E (example_file 10) (example_info 10 False) ?c) = 200"
    by (simp add: handler_eval parse_eval)
  have sf: "status (sendFile ?E (example_file 10) (example_info 10 False) ?c) = 200"
    by (simp add: handler_eval parse_eval)
  have bc: "body ?c = []" by (simp add: request_def)
  note rb = example_backup_resolves [of 10 "''''"]
  note rf = example_file_resolves [of 10 "''''"]
  note r1 = h [THEN conjunct2, THEN conjunct2, THEN conjunct1]
  note r2 = h [THEN conjunct2, THEN conjunct2, THEN conjunct2, THEN conjunct1]
  note hb = h [THEN conjunct2, THEN conjunct2, THEN conjunct2, THEN conjunct2,
      THEN conjunct2, THEN conjunct2, THEN conjunct1, THEN mp, OF rb]
  note hf = h [THEN conjunct2, THEN conjunct2, THEN conjunct2, THEN conjunct2,
      THEN conjunct2, THEN conjunct2, THEN conjunct2, THEN mp, OF rf]
  note b1 = hb [THEN conjunct1]
  note b2 = hb [THEN conjunct2, THEN conjunct1]
  note b3 = hb [THEN conjunct2, THEN conjunct2, THEN conjunct2, THEN conjunct1]
  note b4 = hb [THEN conjunct2, THEN conjunct2, THEN conjunct2, THEN conjunct2]
  note f1 = hf [THEN conjunct1]
  note f4 = hf [THEN conjunct2, THEN conjunct2, THEN conjunct2, THEN conjunct2]
  show ?thesis
  proof (intro conjI)
    show "repeat_request (getDownloadBackupHead ?E) ?c 3 {} =
      (replicate 3 (fst (getDownloadBackupHead ?E {} ?c)), {})" by (rule r1)
    show "repeat_request (getDownloadFileHead ?E) ?c 3 {} =
      (replicate 3 (fst (getDownloadFileHead ?E {} ?c)), {})" by (rule r2)
    show "status (fst (getDownloadBackupHead ?E {} ?c)) = 200"
      using b1 by (simp only: StatusOK_def)
    show "headers (fst (getDownloadBackupHead ?E {} ?c)) ''Content-Length'' = Some ''10''"
      using b2 by (simp only: f)
    show "body (fst (getDownloadBackupHead ?E {} ?c)) = []"
      using b3 by (simp only: bc)
    show "snd (getDownloadBackup ?E (snd (repeat_request (getDownloadBackupHead ?E) ?c 3 {}))
            ?c) = {''u1''}"
      unfolding b4 by simp
    show "status (fst (getDownloadBackup ?E
            (snd (repeat_request (getDownloadBackupHead ?E) ?c 3 {})) ?c)) = 200"
      unfolding b4 using sb by simp
    show "status (fst (getDownloadFileHead ?E {} ?c)) = 200"
      using f1 by (simp only: StatusOK_def)
    show "status (fst (getDownloadFile ?E
            (snd (repeat_request (getDownloadFileHead ?E) ?c 3 {})) ?c)) = 200"
      unfolding f4 using sf by simp
  qed
qed

end
